theory Spec2Isabelle
  imports Complex_Main
begin

section \<open>Numbers, points and the geometry helpers of Utils (canvas.js)\<close>

text \<open>
  JavaScript numbers are modelled as reals (no rounding, no NaN, no infinities);
  timestamps returned by Date.now() are integers (milliseconds). Where a division
  by zero can be reached, the result that JavaScript's infinity or NaN leads to is
  written out. A point object \<open>{x, y}\<close> is a record.
\<close>

record point =
  p_x :: real
  p_y :: real

definition distance :: "point \<Rightarrow> point \<Rightarrow> real" where
  "distance p1 p2 =
     (let dx = p_x p2 - p_x p1; dy = p_y p2 - p_y p1 in sqrt (dx * dx + dy * dy))"

definition lerp :: "real \<Rightarrow> real \<Rightarrow> real \<Rightarrow> real" where
  "lerp start end' t = start + (end' - start) * t"

definition clamp :: "real \<Rightarrow> real \<Rightarrow> real \<Rightarrow> real" where
  "clamp val mn mx = min (max val mn) mx"

definition pointInRect :: "point \<Rightarrow> real \<Rightarrow> real \<Rightarrow> real \<Rightarrow> real \<Rightarrow> bool" where
  "pointInRect p rx ry rw rh =
     (p_x p \<ge> rx \<and> p_x p \<le> rx + rw \<and> p_y p \<ge> ry \<and> p_y p \<le> ry + rh)"

record bounds =
  b_x :: real
  b_y :: real
  b_width :: real
  b_height :: real

definition getBoundsOf :: "point \<Rightarrow> point \<Rightarrow> bounds" where
  "getBoundsOf p1 p2 =
     \<lparr> b_x = min (p_x p1) (p_x p2), b_y = min (p_y p1) (p_y p2),
       b_width = \<bar>p_x p2 - p_x p1\<bar>, b_height = \<bar>p_y p2 - p_y p1\<bar> \<rparr>"

subsection \<open>Utils.simplifyPoints (Ramer-Douglas-Peucker)\<close>

definition sqDist :: "point \<Rightarrow> point \<Rightarrow> real" where
  "sqDist p1 p2 = (let dx = p_x p1 - p_x p2; dy = p_y p1 - p_y p2 in dx * dx + dy * dy)"

definition sqDistToSegment :: "point \<Rightarrow> point \<Rightarrow> point \<Rightarrow> real" where
  "sqDistToSegment p v w =
     (let l2 = sqDist v w in
      if l2 = 0 then sqDist p v
      else
        let t0 = ((p_x p - p_x v) * (p_x w - p_x v) + (p_y p - p_y v) * (p_y w - p_y v)) / l2;
            t = max 0 (min 1 t0)
        in sqDist p \<lparr> p_x = p_x v + t * (p_x w - p_x v), p_y = p_y v + t * (p_y w - p_y v) \<rparr>)"

text \<open>
  The \<open>for\<close> loop of the inner \<open>simplify\<close>: \<open>i\<close> runs from \<open>start + 1\<close> while \<open>i < end\<close>;
  the loop state is \<open>(maxDist, maxIndex)\<close>. The first argument counts the remaining
  iterations \<open>end - i\<close>.
\<close>

fun scanMax :: "nat \<Rightarrow> point list \<Rightarrow> nat \<Rightarrow> nat \<Rightarrow> nat \<Rightarrow> real \<times> nat \<Rightarrow> real \<times> nat" where
  "scanMax 0 pts start end' i acc = acc"
| "scanMax (Suc k) pts start end' i (maxDist, maxIndex) =
     (let d = sqDistToSegment (pts ! i) (pts ! start) (pts ! end') in
      scanMax k pts start end' (Suc i)
        (if d > maxDist then (d, i) else (maxDist, maxIndex)))"

text \<open>
  The recursive closure \<open>simplify(start, end)\<close>. The recursion depth is bounded by the
  first argument; \<open>None\<close> stands for a recursion that does not come back (in JavaScript
  the call stack overflows), which happens only for a negative \<open>epsilon\<close>.
\<close>

fun simplify :: "nat \<Rightarrow> point list \<Rightarrow> real \<Rightarrow> nat \<Rightarrow> nat \<Rightarrow> point list option" where
  "simplify 0 pts eps start end' = None"
| "simplify (Suc fuel) pts eps start end' =
     (case scanMax (end' - (start + 1)) pts start end' (start + 1) (0, 0) of
        (maxDist, maxIndex) \<Rightarrow>
          if sqrt maxDist > eps then
            (case simplify fuel pts eps start maxIndex of
               None \<Rightarrow> None
             | Some left \<Rightarrow>
                 (case simplify fuel pts eps maxIndex end' of
                    None \<Rightarrow> None
                  | Some right \<Rightarrow> Some (butlast left @ right)))
          else Some [pts ! start, pts ! end'])"

definition simplifyPoints :: "point list \<Rightarrow> real \<Rightarrow> point list option" where
  "simplifyPoints pts eps =
     (if length pts < 3 then Some pts
      else simplify (length pts) pts eps 0 (length pts - 1))"

section \<open>Elements (elements.js)\<close>

text \<open>
  The class hierarchy Element / Rectangle / Circle / Line / Arrow / FreehandPath:
  the fields of the base class are a record, the fields a subclass adds are the
  arguments of its constructor in \<open>shape\<close>.
\<close>

datatype shape =
    Plain
  | Rectangle (cornerRadius: real)
  | Circle
  | Line (startX: real) (startY: real) (endX: real) (endY: real)
  | Arrow (startX: real) (startY: real) (endX: real) (endY: real)
      (headLength: real) (headAngle: real)
  | FreehandPath (points: "point list")

record element =
  e_id :: string
  e_x :: real
  e_y :: real
  e_width :: real
  e_height :: real
  e_rotation :: real
  strokeColor :: string
  fillColor :: string
  strokeWidth :: real
  opacity :: real
  selected :: bool
  locked :: bool
  shape :: shape

fun type_name :: "shape \<Rightarrow> string" where
  "type_name Plain = ''element''"
| "type_name (Rectangle r) = ''rectangle''"
| "type_name Circle = ''circle''"
| "type_name (Line a b c d) = ''line''"
| "type_name (Arrow a b c d e f) = ''arrow''"
| "type_name (FreehandPath ps) = ''freehand''"

definition e_type :: "element \<Rightarrow> string" where
  "e_type e = type_name (shape e)"

text \<open>
  A plain JavaScript object as produced by \<open>toJSON\<close> and consumed by the constructors
  (\<open>options\<close> / \<open>data\<close>): every property may be absent (\<open>None\<close> is \<open>undefined\<close>).
\<close>

record options =
  o_id :: "string option"
  o_type :: "string option"
  o_x :: "real option"
  o_y :: "real option"
  o_width :: "real option"
  o_height :: "real option"
  o_rotation :: "real option"
  o_strokeColor :: "string option"
  o_fillColor :: "string option"
  o_strokeWidth :: "real option"
  o_opacity :: "real option"
  o_cornerRadius :: "real option"
  o_startX :: "real option"
  o_startY :: "real option"
  o_endX :: "real option"
  o_endY :: "real option"
  o_headLength :: "real option"
  o_headAngle :: "real option"
  o_points :: "point list option"

definition no_options :: options where
  "no_options =
     \<lparr> o_id = None, o_type = None, o_x = None, o_y = None, o_width = None, o_height = None,
       o_rotation = None, o_strokeColor = None, o_fillColor = None, o_strokeWidth = None,
       o_opacity = None, o_cornerRadius = None, o_startX = None, o_startY = None,
       o_endX = None, o_endY = None, o_headLength = None, o_headAngle = None,
       o_points = None \<rparr>"

text \<open>The operator \<open>a || b\<close>: \<open>undefined\<close>, \<open>0\<close> and the empty string are falsy.\<close>

fun or_num :: "real option \<Rightarrow> real \<Rightarrow> real" where
  "or_num None d = d"
| "or_num (Some v) d = (if v = 0 then d else v)"

fun or_str :: "string option \<Rightarrow> string \<Rightarrow> string" where
  "or_str None d = d"
| "or_str (Some v) d = (if v = [] then d else v)"

fun or_points :: "point list option \<Rightarrow> point list \<Rightarrow> point list" where
  "or_points None d = d"
| "or_points (Some ps) d = ps"

text \<open>
  \<open>Utils.generateId()\<close> reads the clock and the random generator; its result is an
  input of every constructor (\<open>gid\<close>).
\<close>

definition new_Element :: "string \<Rightarrow> options \<Rightarrow> element" where
  "new_Element gid opts =
     \<lparr> e_id = gid,
       e_x = or_num (o_x opts) 0,
       e_y = or_num (o_y opts) 0,
       e_width = or_num (o_width opts) 0,
       e_height = or_num (o_height opts) 0,
       e_rotation = or_num (o_rotation opts) 0,
       strokeColor = or_str (o_strokeColor opts) ''#1e1e1e'',
       fillColor = or_str (o_fillColor opts) ''transparent'',
       strokeWidth = or_num (o_strokeWidth opts) 4,
       opacity = or_num (o_opacity opts) 1,
       selected = False,
       locked = False,
       shape = Plain \<rparr>"

definition new_Rectangle :: "string \<Rightarrow> options \<Rightarrow> element" where
  "new_Rectangle gid opts =
     (new_Element gid opts) \<lparr> shape := Rectangle (or_num (o_cornerRadius opts) 0) \<rparr>"

definition new_Circle :: "string \<Rightarrow> options \<Rightarrow> element" where
  "new_Circle gid opts = (new_Element gid opts) \<lparr> shape := Circle \<rparr>"

text \<open>Line.updateBounds, on the four endpoint coordinates.\<close>

definition line_updateBounds :: "element \<Rightarrow> element" where
  "line_updateBounds e =
     e \<lparr> e_x := min (startX (shape e)) (endX (shape e)),
         e_y := min (startY (shape e)) (endY (shape e)),
         e_width := \<bar>endX (shape e) - startX (shape e)\<bar>,
         e_height := \<bar>endY (shape e) - startY (shape e)\<bar> \<rparr>"

definition new_Line :: "string \<Rightarrow> options \<Rightarrow> element" where
  "new_Line gid opts =
     (let sx = or_num (o_startX opts) (or_num (o_x opts) 0);
          sy = or_num (o_startY opts) (or_num (o_y opts) 0);
          ex = or_num (o_endX opts) sx;
          ey = or_num (o_endY opts) sy
      in line_updateBounds ((new_Element gid opts) \<lparr> shape := Line sx sy ex ey \<rparr>))"

definition new_Arrow :: "string \<Rightarrow> options \<Rightarrow> element" where
  "new_Arrow gid opts =
     (let l = new_Line gid opts in
      l \<lparr> shape := Arrow (startX (shape l)) (startY (shape l)) (endX (shape l)) (endY (shape l))
                      (or_num (o_headLength opts) 15) (or_num (o_headAngle opts) (pi / 6)) \<rparr>)"

text \<open>
  FreehandPath.updateBounds: the running minimum and maximum start at plus and minus
  infinity, so for a non-empty list they are the minimum and maximum of the coordinates.
\<close>

definition path_updateBounds :: "element \<Rightarrow> element" where
  "path_updateBounds e =
     (let ps = points (shape e) in
      if length ps = 0 then e
      else
        let minX = Min (set (map p_x ps)); minY = Min (set (map p_y ps));
            maxX = Max (set (map p_x ps)); maxY = Max (set (map p_y ps))
        in e \<lparr> e_x := minX, e_y := minY, e_width := maxX - minX, e_height := maxY - minY \<rparr>)"

definition new_FreehandPath :: "string \<Rightarrow> options \<Rightarrow> element" where
  "new_FreehandPath gid opts =
     (let e = (new_Element gid opts) \<lparr> shape := FreehandPath (or_points (o_points opts) []) \<rparr>
      in if length (points (shape e)) > 0 then path_updateBounds e else e)"

definition addPoint :: "real \<Rightarrow> real \<Rightarrow> element \<Rightarrow> element" where
  "addPoint x y e =
     path_updateBounds (e \<lparr> shape := FreehandPath (points (shape e) @ [\<lparr> p_x = x, p_y = y \<rparr>]) \<rparr>)"

text \<open>
  FreehandPath.simplify. The result is \<open>None\<close> when \<open>Utils.simplifyPoints\<close> does not
  return.
\<close>

definition path_simplify :: "element \<Rightarrow> element option" where
  "path_simplify e =
     (if length (points (shape e)) > 3 then
        (case simplifyPoints (points (shape e)) 2 of
           None \<Rightarrow> None
         | Some ps \<Rightarrow> Some (e \<lparr> shape := FreehandPath ps \<rparr>))
      else Some e)"

text \<open>Element.getBounds.\<close>

definition getBounds :: "element \<Rightarrow> bounds" where
  "getBounds e = \<lparr> b_x = e_x e, b_y = e_y e, b_width = e_width e, b_height = e_height e \<rparr>"

text \<open>The method \<open>move(dx, dy)\<close> of Element, overridden by Line and FreehandPath.\<close>

fun move :: "real \<Rightarrow> real \<Rightarrow> element \<Rightarrow> element" where
  "move dx dy e =
     (case shape e of
        Line sx sy ex ey \<Rightarrow>
          line_updateBounds (e \<lparr> shape := Line (sx + dx) (sy + dy) (ex + dx) (ey + dy) \<rparr>)
      | Arrow sx sy ex ey hl ha \<Rightarrow>
          line_updateBounds (e \<lparr> shape := Arrow (sx + dx) (sy + dy) (ex + dx) (ey + dy) hl ha \<rparr>)
      | FreehandPath ps \<Rightarrow>
          path_updateBounds
            (e \<lparr> shape := FreehandPath (map (\<lambda>p. \<lparr> p_x = p_x p + dx, p_y = p_y p + dy \<rparr>) ps) \<rparr>)
      | _ \<Rightarrow> e \<lparr> e_x := e_x e + dx, e_y := e_y e + dy \<rparr>)"

text \<open>
  What \<open>draw(ctx)\<close> paints, as far as positions go: a rectangle and an ellipse are
  painted from \<open>x, y, width, height\<close>, a line and an arrow from their two endpoints, a
  freehand path from its points.
\<close>

datatype drawn =
    DrawnBox real real real real
  | DrawnSegment real real real real
  | DrawnPath "point list"
  | DrawnNothing

fun drawn_geometry :: "element \<Rightarrow> drawn" where
  "drawn_geometry e =
     (case shape e of
        Plain \<Rightarrow> DrawnNothing
      | Rectangle r \<Rightarrow> DrawnBox (e_x e) (e_y e) (e_width e) (e_height e)
      | Circle \<Rightarrow> DrawnBox (e_x e) (e_y e) (e_width e) (e_height e)
      | Line sx sy ex ey \<Rightarrow> DrawnSegment sx sy ex ey
      | Arrow sx sy ex ey hl ha \<Rightarrow> DrawnSegment sx sy ex ey
      | FreehandPath ps \<Rightarrow> DrawnPath ps)"

subsection \<open>Hit testing\<close>

text \<open>
  For an ellipse of width or height 0 the division in Circle.containsPoint gives an
  infinity or NaN, and the comparison with 1 is false.
\<close>

definition distanceToSegment :: "point \<Rightarrow> point \<Rightarrow> point \<Rightarrow> real" where
  "distanceToSegment p p1 p2 =
     (let dx = p_x p2 - p_x p1; dy = p_y p2 - p_y p1; lengthSq = dx * dx + dy * dy in
      if lengthSq = 0 then distance p p1
      else
        let t0 = ((p_x p - p_x p1) * dx + (p_y p - p_y p1) * dy) / lengthSq;
            t = max 0 (min 1 t0)
        in distance p \<lparr> p_x = p_x p1 + t * dx, p_y = p_y p1 + t * dy \<rparr>)"

fun nearAnySegment :: "point \<Rightarrow> point list \<Rightarrow> bool" where
  "nearAnySegment p (p1 # p2 # ps) =
     (if distanceToSegment p p1 p2 \<le> 10 then True else nearAnySegment p (p2 # ps))"
| "nearAnySegment p ps = False"

fun containsPoint :: "element \<Rightarrow> point \<Rightarrow> bool" where
  "containsPoint e p =
     (case shape e of
        Circle \<Rightarrow>
          (let cx = e_x e + e_width e / 2; cy = e_y e + e_height e / 2;
               rx = e_width e / 2; ry = e_height e / 2;
               dx = (p_x p - cx) / rx; dy = (p_y p - cy) / ry
           in if rx = 0 \<or> ry = 0 then False else dx * dx + dy * dy \<le> 1)
      | Line sx sy ex ey \<Rightarrow>
          distanceToSegment p \<lparr> p_x = sx, p_y = sy \<rparr> \<lparr> p_x = ex, p_y = ey \<rparr> \<le> 10
      | Arrow sx sy ex ey hl ha \<Rightarrow>
          distanceToSegment p \<lparr> p_x = sx, p_y = sy \<rparr> \<lparr> p_x = ex, p_y = ey \<rparr> \<le> 10
      | FreehandPath ps \<Rightarrow> nearAnySegment p ps
      | _ \<Rightarrow> pointInRect p (e_x e) (e_y e) (e_width e) (e_height e))"

subsection \<open>Serialisation\<close>

definition base_toJSON :: "element \<Rightarrow> options" where
  "base_toJSON e =
     no_options \<lparr> o_id := Some (e_id e), o_type := Some (e_type e),
       o_x := Some (e_x e), o_y := Some (e_y e),
       o_width := Some (e_width e), o_height := Some (e_height e),
       o_rotation := Some (e_rotation e),
       o_strokeColor := Some (strokeColor e), o_fillColor := Some (fillColor e),
       o_strokeWidth := Some (strokeWidth e), o_opacity := Some (opacity e) \<rparr>"

fun toJSON :: "element \<Rightarrow> options" where
  "toJSON e =
     (case shape e of
        Rectangle r \<Rightarrow> (base_toJSON e) \<lparr> o_cornerRadius := Some r \<rparr>
      | Line sx sy ex ey \<Rightarrow>
          (base_toJSON e) \<lparr> o_startX := Some sx, o_startY := Some sy,
                            o_endX := Some ex, o_endY := Some ey \<rparr>
      | Arrow sx sy ex ey hl ha \<Rightarrow>
          (base_toJSON e) \<lparr> o_startX := Some sx, o_startY := Some sy,
                            o_endX := Some ex, o_endY := Some ey,
                            o_headLength := Some hl, o_headAngle := Some ha \<rparr>
      | FreehandPath ps \<Rightarrow>
          (base_toJSON e) \<lparr> o_points := Some (map (\<lambda>p. \<lparr> p_x = p_x p, p_y = p_y p \<rparr>) ps) \<rparr>
      | _ \<Rightarrow> base_toJSON e)"

definition fromJSON :: "string \<Rightarrow> options \<Rightarrow> element" where
  "fromJSON gid data =
     (if o_type data = Some ''rectangle'' then new_Rectangle gid data
      else if o_type data = Some ''circle'' then new_Circle gid data
      else if o_type data = Some ''line'' then new_Line gid data
      else if o_type data = Some ''arrow'' then new_Arrow gid data
      else if o_type data = Some ''freehand'' then new_FreehandPath gid data
      else new_Element gid data)"

text \<open>\<open>clone()\<close>: two identifiers are generated, one by \<open>clone\<close>, one by the constructor.\<close>

definition clone :: "string \<Rightarrow> string \<Rightarrow> element \<Rightarrow> element" where
  "clone gid1 gid2 e = fromJSON gid2 ((toJSON e) \<lparr> o_id := Some gid1 \<rparr>)"

section \<open>The drawing canvas (canvas.js)\<close>

text \<open>
  Element objects are shared by reference between the scene, the selection and the
  tools, and are mutated in place. The objects live in \<open>store\<close>; a reference is an
  index into it, and \<open>new\<close> appends to it. The listeners registered with the event
  emitter are outside the model: \<open>emit\<close> appends to the log \<open>emitted\<close>.
\<close>

type_synonym ref = nat

datatype error = TypeError

record transform =
  t_x :: real
  t_y :: real
  t_scale :: real

datatype event =
    EvPan real real
  | EvZoom real
  | EvViewReset
  | EvElementAdded ref
  | EvElementRemoved ref
  | EvSelectionChanged "ref option"
  | EvCleared
  | EvHistoryChanged bool bool
  | EvUndo
  | EvRedo

record canvas =
  store :: "element list"
  transform :: transform
  elements :: "ref list"
  selectedElement :: "ref option"
  history :: "options list list"
  historyIndex :: int
  needsRender :: bool
  emitted :: "event list"

definition minScale :: real where "minScale = 0.1"
definition maxScale :: real where "maxScale = 4"
definition maxHistory :: nat where "maxHistory = 50"

definition init_canvas :: canvas where
  "init_canvas =
     \<lparr> store = [], transform = \<lparr> t_x = 0, t_y = 0, t_scale = 1 \<rparr>, elements = [],
       selectedElement = None, history = [], historyIndex = - 1, needsRender = True,
       emitted = [] \<rparr>"

definition new_object :: "element \<Rightarrow> canvas \<Rightarrow> ref \<times> canvas" where
  "new_object e c = (length (store c), c \<lparr> store := store c @ [e] \<rparr>)"

definition requestRender :: "canvas \<Rightarrow> canvas" where
  "requestRender c = c \<lparr> needsRender := True \<rparr>"

definition emit :: "event \<Rightarrow> canvas \<Rightarrow> canvas" where
  "emit ev c = c \<lparr> emitted := emitted c @ [ev] \<rparr>"

definition screenToCanvas :: "canvas \<Rightarrow> real \<Rightarrow> real \<Rightarrow> point" where
  "screenToCanvas c screenX screenY =
     \<lparr> p_x = (screenX - t_x (transform c)) / t_scale (transform c),
       p_y = (screenY - t_y (transform c)) / t_scale (transform c) \<rparr>"

definition canvasToScreen :: "canvas \<Rightarrow> real \<Rightarrow> real \<Rightarrow> point" where
  "canvasToScreen c canvasX canvasY =
     \<lparr> p_x = canvasX * t_scale (transform c) + t_x (transform c),
       p_y = canvasY * t_scale (transform c) + t_y (transform c) \<rparr>"

definition pan :: "real \<Rightarrow> real \<Rightarrow> canvas \<Rightarrow> canvas" where
  "pan deltaX deltaY c =
     (let tr = transform c;
          tr' = tr \<lparr> t_x := t_x tr + deltaX, t_y := t_y tr + deltaY \<rparr>
      in emit (EvPan (t_x tr') (t_y tr')) (requestRender (c \<lparr> transform := tr' \<rparr>)))"

definition zoom :: "real \<Rightarrow> real \<Rightarrow> real \<Rightarrow> canvas \<Rightarrow> canvas" where
  "zoom factor centerX centerY c =
     (let oldScale = t_scale (transform c);
          newScale = clamp (oldScale * factor) minScale maxScale
      in if newScale = oldScale then c
         else
           let scaleChange = newScale / oldScale;
               tr = transform c;
               tr' = \<lparr> t_x = centerX - (centerX - t_x tr) * scaleChange,
                       t_y = centerY - (centerY - t_y tr) * scaleChange,
                       t_scale = newScale \<rparr>
           in emit (EvZoom newScale) (requestRender (c \<lparr> transform := tr' \<rparr>)))"

subsection \<open>History\<close>

definition canUndo :: "canvas \<Rightarrow> bool" where
  "canUndo c = (historyIndex c > 0)"

definition canRedo :: "canvas \<Rightarrow> bool" where
  "canRedo c = (historyIndex c < int (length (history c)) - 1)"

text \<open>The snapshot \<open>this.elements.map(el => el.toJSON())\<close>.\<close>

definition snapshot :: "canvas \<Rightarrow> options list" where
  "snapshot c = map (\<lambda>r. toJSON (store c ! r)) (elements c)"

text \<open>
  \<open>history.slice(0, historyIndex + 1)\<close>: a negative end counts from the end of the
  array, so \<open>slice(0, 0)\<close> (index \<open>-1\<close>) is empty.
\<close>

definition slice0 :: "'a list \<Rightarrow> int \<Rightarrow> 'a list" where
  "slice0 xs e = (if e < 0 then take (nat (int (length xs) + e)) xs else take (nat e) xs)"

definition saveHistory :: "canvas \<Rightarrow> canvas" where
  "saveHistory c =
     (let h1 = slice0 (history c) (historyIndex c + 1);
          h2 = h1 @ [snapshot c];
          c' = (if length h2 > maxHistory
                then c \<lparr> history := tl h2 \<rparr>
                else c \<lparr> history := h2, historyIndex := historyIndex c + 1 \<rparr>)
      in emit (EvHistoryChanged (canUndo c') (canRedo c')) c')"

text \<open>
  restoreFromHistory: \<open>this.history[this.historyIndex]\<close> is \<open>undefined\<close> outside the
  array, and calling \<open>map\<close> on it throws. Every restored element is a new object; the
  \<open>i\<close>-th one receives the identifier \<open>gids i\<close>.
\<close>

definition restoreFromHistory :: "(nat \<Rightarrow> string) \<Rightarrow> canvas \<Rightarrow> error + canvas" where
  "restoreFromHistory gids c =
     (if historyIndex c < 0 \<or> historyIndex c \<ge> int (length (history c)) then Inl TypeError
      else
        let state = history c ! nat (historyIndex c);
            objs = map (\<lambda>i. fromJSON (gids i) (state ! i)) [0 ..< length state];
            base = length (store c);
            c' = c \<lparr> store := store c @ objs,
                     elements := [base ..< base + length state],
                     selectedElement := None \<rparr>;
            c'' = requestRender c'
        in Inr (emit (EvHistoryChanged (canUndo c'') (canRedo c'')) c''))"

definition undo :: "(nat \<Rightarrow> string) \<Rightarrow> canvas \<Rightarrow> error + canvas" where
  "undo gids c =
     (if \<not> canUndo c then Inr c
      else
        (case restoreFromHistory gids (c \<lparr> historyIndex := historyIndex c - 1 \<rparr>) of
           Inl err \<Rightarrow> Inl err
         | Inr c' \<Rightarrow> Inr (emit EvUndo c')))"

definition redo :: "(nat \<Rightarrow> string) \<Rightarrow> canvas \<Rightarrow> error + canvas" where
  "redo gids c =
     (if \<not> canRedo c then Inr c
      else
        (case restoreFromHistory gids (c \<lparr> historyIndex := historyIndex c + 1 \<rparr>) of
           Inl err \<Rightarrow> Inl err
         | Inr c' \<Rightarrow> Inr (emit EvRedo c')))"

subsection \<open>Scene operations\<close>

definition addElement :: "ref \<Rightarrow> canvas \<Rightarrow> canvas" where
  "addElement r c =
     emit (EvElementAdded r) (requestRender (saveHistory (c \<lparr> elements := elements c @ [r] \<rparr>)))"

definition removeElement :: "ref \<Rightarrow> canvas \<Rightarrow> canvas" where
  "removeElement r c =
     (if r \<in> set (elements c) then
        let c1 = c \<lparr> elements := remove1 r (elements c) \<rparr>;
            c2 = (if selectedElement c1 = Some r then c1 \<lparr> selectedElement := None \<rparr> else c1)
        in emit (EvElementRemoved r) (requestRender (saveHistory c2))
      else c)"

definition clear :: "canvas \<Rightarrow> canvas" where
  "clear c =
     emit EvCleared
       (requestRender (saveHistory (c \<lparr> elements := [], selectedElement := None \<rparr>)))"

definition getElementAt :: "canvas \<Rightarrow> real \<Rightarrow> real \<Rightarrow> ref option" where
  "getElementAt c screenX screenY =
     (let canvasPos = screenToCanvas c screenX screenY in
      find (\<lambda>r. containsPoint (store c ! r) canvasPos) (rev (elements c)))"

definition set_selected :: "ref \<Rightarrow> bool \<Rightarrow> canvas \<Rightarrow> canvas" where
  "set_selected r b c = c \<lparr> store := (store c) [r := (store c ! r) \<lparr> selected := b \<rparr>] \<rparr>"

definition selectElement :: "ref option \<Rightarrow> canvas \<Rightarrow> canvas" where
  "selectElement el c =
     (let c1 = (case selectedElement c of None \<Rightarrow> c | Some s \<Rightarrow> set_selected s False c);
          c2 = c1 \<lparr> selectedElement := el \<rparr>;
          c3 = (case el of None \<Rightarrow> c2 | Some r \<Rightarrow> set_selected r True c2)
      in emit (EvSelectionChanged el) (requestRender c3))"

definition deselectAll :: "canvas \<Rightarrow> canvas" where
  "deselectAll c = selectElement None c"

text \<open>
  The operations that change the scene or move the history cursor, and a run of them.
  \<open>SaveHistory\<close> is the call made by the select tool at the end of a drag.
\<close>

datatype scene_op =
    AddElement ref
  | RemoveElement ref
  | Clear
  | SaveHistory
  | Undo "nat \<Rightarrow> string"
  | Redo "nat \<Rightarrow> string"

fun apply_op :: "scene_op \<Rightarrow> canvas \<Rightarrow> error + canvas" where
  "apply_op (AddElement r) c = Inr (addElement r c)"
| "apply_op (RemoveElement r) c = Inr (removeElement r c)"
| "apply_op Clear c = Inr (clear c)"
| "apply_op SaveHistory c = Inr (saveHistory c)"
| "apply_op (Undo gids) c = undo gids c"
| "apply_op (Redo gids) c = redo gids c"

fun run_ops :: "scene_op list \<Rightarrow> canvas \<Rightarrow> error + canvas" where
  "run_ops [] c = Inr c"
| "run_ops (op # ops) c =
     (case apply_op op c of Inl err \<Rightarrow> Inl err | Inr c' \<Rightarrow> run_ops ops c')"

definition hist_inv :: "canvas \<Rightarrow> bool" where
  "hist_inv c =
     (0 \<le> historyIndex c \<and> historyIndex c < int (length (history c))
      \<and> length (history c) \<le> 50)"

section \<open>Tools (class Tool and its subclasses)\<close>

text \<open>
  The base class Tool is a record; SelectTool and FreehandTool extend it with their own
  fields. Every tool holds a reference to the one canvas, which is passed in and
  returned. \<open>startPoint\<close>, \<open>currentPoint\<close>, \<open>previewElement\<close> are \<open>null\<close> when \<open>None\<close>.
\<close>

record tool =
  isActive :: bool
  startPoint :: "point option"
  currentPoint :: "point option"
  previewElement :: "ref option"
  tool_strokeColor :: string
  tool_fillColor :: string
  tool_strokeWidth :: real

record selectTool = tool +
  draggedElement :: "ref option"
  dragOffset :: point


definition new_Tool :: tool where
  "new_Tool =
     \<lparr> isActive = False, startPoint = None, currentPoint = None, previewElement = None,
       tool_strokeColor = ''#1e1e1e'', tool_fillColor = ''transparent'',
       tool_strokeWidth = 4 \<rparr>"

definition new_SelectTool :: selectTool where
  "new_SelectTool =
     tool.extend new_Tool
       (selectTool.fields None \<lparr> p_x = 0, p_y = 0 \<rparr>)"


definition Tool_onStart :: "real \<Rightarrow> real \<Rightarrow> canvas \<Rightarrow> 'a tool_scheme \<Rightarrow> 'a tool_scheme" where
  "Tool_onStart screenX screenY c t =
     t \<lparr> startPoint := Some (screenToCanvas c screenX screenY),
         currentPoint := Some (screenToCanvas c screenX screenY) \<rparr>"

definition Tool_onMove :: "real \<Rightarrow> real \<Rightarrow> canvas \<Rightarrow> 'a tool_scheme \<Rightarrow> 'a tool_scheme" where
  "Tool_onMove screenX screenY c t = t \<lparr> currentPoint := Some (screenToCanvas c screenX screenY) \<rparr>"

definition Tool_onEnd :: "'a tool_scheme \<Rightarrow> 'a tool_scheme" where
  "Tool_onEnd t = t \<lparr> startPoint := None, currentPoint := None, previewElement := None \<rparr>"

text \<open>\<open>getStyle()\<close>, spread into the options of a new element.\<close>

definition getStyle :: "'a tool_scheme \<Rightarrow> options" where
  "getStyle t =
     no_options \<lparr> o_strokeColor := Some (tool_strokeColor t),
                  o_fillColor := Some (tool_fillColor t),
                  o_strokeWidth := Some (tool_strokeWidth t) \<rparr>"

text \<open>
  After \<open>super.onStart\<close> / \<open>super.onMove\<close> the two points are set; \<open>the_point\<close> reads
  such a field (the origin stands for a field that is \<open>null\<close>, which the callers below
  exclude before reading a coordinate).
\<close>

definition the_point :: "point option \<Rightarrow> point" where
  "the_point po = (case po of None \<Rightarrow> \<lparr> p_x = 0, p_y = 0 \<rparr> | Some p \<Rightarrow> p)"

definition update_object :: "ref \<Rightarrow> (element \<Rightarrow> element) \<Rightarrow> canvas \<Rightarrow> canvas" where
  "update_object r f c = c \<lparr> store := (store c) [r := f (store c ! r)] \<rparr>"

subsection \<open>RectangleTool and CircleTool\<close>

definition RectangleTool_onStart ::
  "string \<Rightarrow> real \<Rightarrow> real \<Rightarrow> tool \<times> canvas \<Rightarrow> tool \<times> canvas" where
  "RectangleTool_onStart gid screenX screenY tc =
     (case tc of (t, c) \<Rightarrow>
        let t1 = Tool_onStart screenX screenY c t;
            sp = the_point (startPoint t1);
            (r, c1) = new_object
                        (new_Rectangle gid
                           ((getStyle t1) \<lparr> o_x := Some (p_x sp), o_y := Some (p_y sp),
                                            o_width := Some 0, o_height := Some 0 \<rparr>)) c
        in (t1 \<lparr> previewElement := Some r \<rparr>, c1))"

definition CircleTool_onStart ::
  "string \<Rightarrow> real \<Rightarrow> real \<Rightarrow> tool \<times> canvas \<Rightarrow> tool \<times> canvas" where
  "CircleTool_onStart gid screenX screenY tc =
     (case tc of (t, c) \<Rightarrow>
        let t1 = Tool_onStart screenX screenY c t;
            sp = the_point (startPoint t1);
            (r, c1) = new_object
                        (new_Circle gid
                           ((getStyle t1) \<lparr> o_x := Some (p_x sp), o_y := Some (p_y sp),
                                            o_width := Some 0, o_height := Some 0 \<rparr>)) c
        in (t1 \<lparr> previewElement := Some r \<rparr>, c1))"

text \<open>RectangleTool.onMove and CircleTool.onMove have the same body.\<close>

definition AreaTool_onMove :: "real \<Rightarrow> real \<Rightarrow> tool \<times> canvas \<Rightarrow> tool \<times> canvas" where
  "AreaTool_onMove screenX screenY tc =
     (case tc of (t, c) \<Rightarrow>
        let t1 = Tool_onMove screenX screenY c t in
        (case (previewElement t1, startPoint t1) of
           (Some r, Some sp) \<Rightarrow>
             let b = getBoundsOf sp (the_point (currentPoint t1)) in
             (t1, requestRender
                    (update_object r
                       (\<lambda>e. e \<lparr> e_x := b_x b, e_y := b_y b,
                                 e_width := b_width b, e_height := b_height b \<rparr>) c))
         | _ \<Rightarrow> (t1, c)))"

text \<open>RectangleTool.onEnd and CircleTool.onEnd have the same body.\<close>

definition AreaTool_onEnd :: "real \<Rightarrow> real \<Rightarrow> tool \<times> canvas \<Rightarrow> tool \<times> canvas" where
  "AreaTool_onEnd screenX screenY tc =
     (case tc of (t, c) \<Rightarrow>
        let c1 = (case previewElement t of
                    None \<Rightarrow> c
                  | Some r \<Rightarrow>
                      if e_width (store c ! r) > 5 \<and> e_height (store c ! r) > 5
                      then addElement r c else c)
        in (Tool_onEnd t, c1))"

subsection \<open>LineTool and ArrowTool\<close>

definition LineTool_onStart ::
  "string \<Rightarrow> real \<Rightarrow> real \<Rightarrow> tool \<times> canvas \<Rightarrow> tool \<times> canvas" where
  "LineTool_onStart gid screenX screenY tc =
     (case tc of (t, c) \<Rightarrow>
        let t1 = Tool_onStart screenX screenY c t;
            sp = the_point (startPoint t1);
            (r, c1) = new_object
                        (new_Line gid
                           ((getStyle t1) \<lparr> o_startX := Some (p_x sp), o_startY := Some (p_y sp),
                                            o_endX := Some (p_x sp), o_endY := Some (p_y sp) \<rparr>)) c
        in (t1 \<lparr> previewElement := Some r \<rparr>, c1))"

definition ArrowTool_onStart ::
  "string \<Rightarrow> real \<Rightarrow> real \<Rightarrow> tool \<times> canvas \<Rightarrow> tool \<times> canvas" where
  "ArrowTool_onStart gid screenX screenY tc =
     (case tc of (t, c) \<Rightarrow>
        let t1 = Tool_onStart screenX screenY c t;
            sp = the_point (startPoint t1);
            (r, c1) = new_object
                        (new_Arrow gid
                           ((getStyle t1) \<lparr> o_startX := Some (p_x sp), o_startY := Some (p_y sp),
                                            o_endX := Some (p_x sp), o_endY := Some (p_y sp) \<rparr>)) c
        in (t1 \<lparr> previewElement := Some r \<rparr>, c1))"

text \<open>
  The assignments \<open>previewElement.endX = ...; previewElement.endY = ...\<close>. The preview of
  a line or arrow tool is the Line or Arrow its own \<open>onStart\<close> made.
\<close>

fun set_end :: "real \<Rightarrow> real \<Rightarrow> shape \<Rightarrow> shape" where
  "set_end x y (Line sx sy ex ey) = Line sx sy x y"
| "set_end x y (Arrow sx sy ex ey hl ha) = Arrow sx sy x y hl ha"
| "set_end x y s = s"

text \<open>LineTool.onMove and ArrowTool.onMove have the same body.\<close>

definition LineTool_onMove :: "real \<Rightarrow> real \<Rightarrow> tool \<times> canvas \<Rightarrow> tool \<times> canvas" where
  "LineTool_onMove screenX screenY tc =
     (case tc of (t, c) \<Rightarrow>
        let t1 = Tool_onMove screenX screenY c t in
        (case previewElement t1 of
           Some r \<Rightarrow>
             let cp = the_point (currentPoint t1) in
             (t1, requestRender
                    (update_object r
                       (\<lambda>e. line_updateBounds (e \<lparr> shape := set_end (p_x cp) (p_y cp) (shape e) \<rparr>))
                       c))
         | None \<Rightarrow> (t1, c)))"

text \<open>LineTool.onEnd and ArrowTool.onEnd have the same body.\<close>

definition line_length :: "element \<Rightarrow> real" where
  "line_length e =
     distance \<lparr> p_x = startX (shape e), p_y = startY (shape e) \<rparr>
              \<lparr> p_x = endX (shape e), p_y = endY (shape e) \<rparr>"

definition LineTool_onEnd :: "real \<Rightarrow> real \<Rightarrow> tool \<times> canvas \<Rightarrow> tool \<times> canvas" where
  "LineTool_onEnd screenX screenY tc =
     (case tc of (t, c) \<Rightarrow>
        let c1 = (case previewElement t of
                    None \<Rightarrow> c
                  | Some r \<Rightarrow> if line_length (store c ! r) > 10 then addElement r c else c)
        in (Tool_onEnd t, c1))"

subsection \<open>FreehandTool\<close>




subsection \<open>A drag with a shape tool\<close>

text \<open>
  The calls that the controller makes for one drag: \<open>onStart\<close> at the anchor \<open>A\<close>,
  \<open>onMove\<close> at every point of \<open>ms\<close> and then at the end point \<open>B\<close>, and \<open>onEnd\<close> at
  \<open>B\<close>. All points are screen positions.
\<close>

definition area_moves :: "(real \<times> real) list \<Rightarrow> tool \<times> canvas \<Rightarrow> tool \<times> canvas" where
  "area_moves ms s = foldl (\<lambda>s' m. AreaTool_onMove (fst m) (snd m) s') s ms"

definition line_moves :: "(real \<times> real) list \<Rightarrow> tool \<times> canvas \<Rightarrow> tool \<times> canvas" where
  "line_moves ms s = foldl (\<lambda>s' m. LineTool_onMove (fst m) (snd m) s') s ms"

definition rectangle_drag ::
  "string \<Rightarrow> real \<times> real \<Rightarrow> (real \<times> real) list \<Rightarrow> real \<times> real \<Rightarrow> tool \<times> canvas
     \<Rightarrow> tool \<times> canvas" where
  "rectangle_drag gid A ms B tc =
     AreaTool_onEnd (fst B) (snd B)
       (area_moves (ms @ [B]) (RectangleTool_onStart gid (fst A) (snd A) tc))"

definition circle_drag ::
  "string \<Rightarrow> real \<times> real \<Rightarrow> (real \<times> real) list \<Rightarrow> real \<times> real \<Rightarrow> tool \<times> canvas
     \<Rightarrow> tool \<times> canvas" where
  "circle_drag gid A ms B tc =
     AreaTool_onEnd (fst B) (snd B)
       (area_moves (ms @ [B]) (CircleTool_onStart gid (fst A) (snd A) tc))"

definition line_drag ::
  "string \<Rightarrow> real \<times> real \<Rightarrow> (real \<times> real) list \<Rightarrow> real \<times> real \<Rightarrow> tool \<times> canvas
     \<Rightarrow> tool \<times> canvas" where
  "line_drag gid A ms B tc =
     LineTool_onEnd (fst B) (snd B)
       (line_moves (ms @ [B]) (LineTool_onStart gid (fst A) (snd A) tc))"

definition arrow_drag ::
  "string \<Rightarrow> real \<times> real \<Rightarrow> (real \<times> real) list \<Rightarrow> real \<times> real \<Rightarrow> tool \<times> canvas
     \<Rightarrow> tool \<times> canvas" where
  "arrow_drag gid A ms B tc =
     LineTool_onEnd (fst B) (snd B)
       (line_moves (ms @ [B]) (ArrowTool_onStart gid (fst A) (snd A) tc))"

text \<open>
  The state of a drag in progress that started on the canvas \<open>c\<close> at the canvas point
  \<open>a\<close> and is now at \<open>cur\<close>: the preview is the one object made since, and the scene,
  the selection, the history and the transform are those of \<open>c\<close>.
\<close>

definition drag_in_progress :: "canvas \<Rightarrow> point \<Rightarrow> point \<Rightarrow> tool \<times> canvas \<Rightarrow> bool" where
  "drag_in_progress c a cur s =
     (startPoint (fst s) = Some a \<and> currentPoint (fst s) = Some cur
      \<and> previewElement (fst s) = Some (length (store c))
      \<and> length (store (snd s)) = Suc (length (store c))
      \<and> take (length (store c)) (store (snd s)) = store c
      \<and> transform (snd s) = transform c
      \<and> elements (snd s) = elements c
      \<and> selectedElement (snd s) = selectedElement c
      \<and> history (snd s) = history c
      \<and> historyIndex (snd s) = historyIndex c)"

text \<open>
  The scene of \<open>c'\<close> is that of \<open>c\<close>: the same elements, selection and history, and
  every object of \<open>c\<close> as it was.
\<close>

definition scene_unchanged :: "canvas \<Rightarrow> canvas \<Rightarrow> bool" where
  "scene_unchanged c c' =
     (elements c' = elements c \<and> selectedElement c' = selectedElement c
      \<and> history c' = history c \<and> historyIndex c' = historyIndex c
      \<and> take (length (store c)) (store c') = store c)"

subsection \<open>SelectTool\<close>

definition SelectTool_onStart ::
  "real \<Rightarrow> real \<Rightarrow> selectTool \<times> canvas \<Rightarrow> selectTool \<times> canvas" where
  "SelectTool_onStart screenX screenY tc =
     (case tc of (t, c) \<Rightarrow>
        let t1 = Tool_onStart screenX screenY c t;
            sp = the_point (startPoint t1)
        in (case getElementAt c screenX screenY of
              Some r \<Rightarrow>
                let c1 = selectElement (Some r) c in
                (t1 \<lparr> draggedElement := Some r,
                      dragOffset := \<lparr> p_x = p_x sp - e_x (store c1 ! r),
                                      p_y = p_y sp - e_y (store c1 ! r) \<rparr> \<rparr>, c1)
            | None \<Rightarrow> (t1 \<lparr> draggedElement := None \<rparr>, deselectAll c)))"

definition SelectTool_onMove ::
  "real \<Rightarrow> real \<Rightarrow> selectTool \<times> canvas \<Rightarrow> selectTool \<times> canvas" where
  "SelectTool_onMove screenX screenY tc =
     (case tc of (t, c) \<Rightarrow>
        let t1 = Tool_onMove screenX screenY c t in
        (case (draggedElement t1, startPoint t1) of
           (Some r, Some sp) \<Rightarrow>
             let cp = the_point (currentPoint t1);
                 dx = p_x cp - p_x sp;
                 dy = p_y cp - p_y sp
             in (t1, requestRender
                       (update_object r
                          (\<lambda>e. e \<lparr> e_x := p_x sp - p_x (dragOffset t1) + dx,
                                    e_y := p_y sp - p_y (dragOffset t1) + dy \<rparr>) c))
         | _ \<Rightarrow> (t1, c)))"

definition SelectTool_onEnd ::
  "real \<Rightarrow> real \<Rightarrow> selectTool \<times> canvas \<Rightarrow> selectTool \<times> canvas" where
  "SelectTool_onEnd screenX screenY tc =
     (case tc of (t, c) \<Rightarrow>
        let c1 = (case draggedElement t of None \<Rightarrow> c | Some r \<Rightarrow> saveHistory c)
        in (Tool_onEnd (t \<lparr> draggedElement := None \<rparr>), c1))"

section \<open>The gesture recognizer (class GestureRecognizer)\<close>

record landmark =
  l_x :: real
  l_y :: real
  l_z :: real

datatype gesture_type = Idle | Fist | Palm | Pointing

record fingers =
  thumb :: bool
  index :: bool
  middle :: bool
  ring :: bool
  pinky :: bool

record gesture =
  g_type :: gesture_type
  cursorPosition :: point
  smoothedPosition :: "point option"
  isOpenPalm :: bool
  isFist :: bool
  isPointing :: bool
  isDrawing :: bool
  isPanning :: bool
  isTap :: bool
  fingerStates :: fingers
  g_landmarks :: "landmark list"
  confidence :: real

datatype gesture_event = NoHands | TapEvent gesture | FistEvent gesture | MoveEvent gesture

record recognizer =
  lastTapTime :: int
  previousGestureType :: "gesture_type option"
  gestureHistory :: "(gesture_type \<times> int) list"
  r_smoothedPosition :: point
  positionHistory :: "point list"
  pointingStartTime :: "int option"
  pointingStartPosition :: "point option"
  wasPointing :: bool
  palmPositionHistory :: "point list"
  twoHand_active :: bool
  twoHand_initialDistance :: "real option"
  twoHand_lastDistance :: "real option"
  r_emitted :: "gesture_event list"

definition TAP_DURATION :: int where "TAP_DURATION = 300"
definition TAP_COOLDOWN :: int where "TAP_COOLDOWN = 400"
definition maxPositionHistory :: nat where "maxPositionHistory = 8"
definition maxPalmHistory :: nat where "maxPalmHistory = 12"

definition new_GestureRecognizer :: recognizer where
  "new_GestureRecognizer =
     \<lparr> lastTapTime = 0, previousGestureType = None, gestureHistory = [],
       r_smoothedPosition = \<lparr> p_x = 0.5, p_y = 0.5 \<rparr>, positionHistory = [],
       pointingStartTime = None, pointingStartPosition = None, wasPointing = False,
       palmPositionHistory = [], twoHand_active = False, twoHand_initialDistance = None,
       twoHand_lastDistance = None, r_emitted = [] \<rparr>"

definition r_emit :: "gesture_event \<Rightarrow> recognizer \<Rightarrow> recognizer" where
  "r_emit ev r = r \<lparr> r_emitted := r_emitted r @ [ev] \<rparr>"

definition resetState :: "recognizer \<Rightarrow> recognizer" where
  "resetState r =
     r \<lparr> previousGestureType := None, twoHand_active := False,
         twoHand_initialDistance := None, pointingStartTime := None, wasPointing := False \<rparr>"

text \<open>
  \<open>landmarks[i]\<close> is \<open>undefined\<close> past the end of the array; reading a property of
  \<open>undefined\<close> throws a TypeError.
\<close>

definition at_index :: "landmark list \<Rightarrow> nat \<Rightarrow> landmark option" where
  "at_index ls i = (if i < length ls then Some (ls ! i) else None)"

definition lpoint :: "landmark \<Rightarrow> point" where
  "lpoint l = \<lparr> p_x = l_x l, p_y = l_y l \<rparr>"

definition isExtended :: "landmark list \<Rightarrow> nat \<Rightarrow> nat \<Rightarrow> nat \<Rightarrow> error + bool" where
  "isExtended ls tipIdx pipIdx mcpIdx =
     (case (at_index ls tipIdx, at_index ls pipIdx, at_index ls mcpIdx, at_index ls 0) of
        (Some tip, Some pip, Some mcp, Some wrist) \<Rightarrow>
          (let tipAbovePip = (l_y tip < l_y pip + 0.02);
               tipDist = distance (lpoint tip) (lpoint wrist);
               mcpDist = distance (lpoint mcp) (lpoint wrist)
           in Inr (tipAbovePip \<and> tipDist > mcpDist * 0.85))
      | _ \<Rightarrow> Inl TypeError)"

definition isThumbExtended :: "landmark list \<Rightarrow> error + bool" where
  "isThumbExtended ls =
     (case (at_index ls 4, at_index ls 5) of
        (Some tip, Some indexMcp) \<Rightarrow> Inr (distance (lpoint tip) (lpoint indexMcp) > 0.08)
      | _ \<Rightarrow> Inl TypeError)"

definition getFingerStates :: "landmark list \<Rightarrow> error + fingers" where
  "getFingerStates ls =
     (case isThumbExtended ls of Inl e \<Rightarrow> Inl e | Inr th \<Rightarrow>
     (case isExtended ls 8 6 5 of Inl e \<Rightarrow> Inl e | Inr ix \<Rightarrow>
     (case isExtended ls 12 10 9 of Inl e \<Rightarrow> Inl e | Inr mi \<Rightarrow>
     (case isExtended ls 16 14 13 of Inl e \<Rightarrow> Inl e | Inr ri \<Rightarrow>
     (case isExtended ls 20 18 17 of Inl e \<Rightarrow> Inl e | Inr pk \<Rightarrow>
        Inr \<lparr> thumb = th, index = ix, middle = mi, ring = ri, pinky = pk \<rparr>)))))"

definition calculateConfidence :: "landmark list \<Rightarrow> real" where
  "calculateConfidence ls =
     (let zValues = map (\<lambda>l. or_num (Some (l_z l)) 0) ls;
          avgZ = sum_list zValues / real (length zValues);
          variance = sum_list (map (\<lambda>z. (z - avgZ) ^ 2) zValues) / real (length zValues)
      in max 0 (1 - variance * 10))"

definition analyzeHand :: "landmark list \<Rightarrow> error + gesture" where
  "analyzeHand ls =
     (case getFingerStates ls of Inl e \<Rightarrow> Inl e | Inr fs \<Rightarrow>
        let openPalm = (index fs \<and> middle fs \<and> ring fs \<and> pinky fs);
            fist = (\<not> index fs \<and> \<not> middle fs \<and> \<not> ring fs \<and> \<not> pinky fs);
            pointing = (index fs \<and> \<not> middle fs \<and> \<not> ring fs \<and> \<not> pinky fs)
        in (case at_index ls (if openPalm then 9 else 8) of
              None \<Rightarrow> Inl TypeError
            | Some anchor \<Rightarrow>
                Inr \<lparr> g_type = (if fist then Fist else if openPalm then Palm
                                else if pointing then Pointing else Idle),
                      cursorPosition = \<lparr> p_x = 1 - l_x anchor, p_y = l_y anchor \<rparr>,
                      smoothedPosition = None,
                      isOpenPalm = openPalm, isFist = fist, isPointing = pointing,
                      isDrawing = pointing, isPanning = openPalm, isTap = False,
                      fingerStates = fs, g_landmarks = ls,
                      confidence = calculateConfidence ls \<rparr>))"

text \<open>
  The two smoothing functions: push, drop the oldest entry beyond the bound, weighted
  average with weight \<open>i + 1\<close> (or its square), then \<open>lerp\<close>.
\<close>

definition push_bounded :: "'a list \<Rightarrow> 'a \<Rightarrow> nat \<Rightarrow> 'a list" where
  "push_bounded xs x bound = (let ys = xs @ [x] in if length ys > bound then tl ys else ys)"

definition weighted_average :: "(nat \<Rightarrow> real) \<Rightarrow> point list \<Rightarrow> point" where
  "weighted_average weight h =
     (let totalWeight = sum_list (map weight [0 ..< length h]);
          weightedX = sum_list (map (\<lambda>i. p_x (h ! i) * weight i) [0 ..< length h]);
          weightedY = sum_list (map (\<lambda>i. p_y (h ! i) * weight i) [0 ..< length h])
      in \<lparr> p_x = weightedX / totalWeight, p_y = weightedY / totalWeight \<rparr>)"

definition smoothPosition ::
  "point \<Rightarrow> real \<Rightarrow> real \<Rightarrow> recognizer \<Rightarrow> point \<times> recognizer" where
  "smoothPosition rawPosition canvasWidth canvasHeight r =
     (let h = push_bounded (positionHistory r) rawPosition maxPositionHistory;
          avg = weighted_average (\<lambda>i. real (i + 1)) h;
          sm = \<lparr> p_x = lerp (p_x (r_smoothedPosition r)) (p_x avg) 0.5,
                 p_y = lerp (p_y (r_smoothedPosition r)) (p_y avg) 0.5 \<rparr>
      in (\<lparr> p_x = p_x sm * canvasWidth, p_y = p_y sm * canvasHeight \<rparr>,
          r \<lparr> positionHistory := h, r_smoothedPosition := sm \<rparr>))"

definition smoothPalmPosition ::
  "point \<Rightarrow> real \<Rightarrow> real \<Rightarrow> recognizer \<Rightarrow> point \<times> recognizer" where
  "smoothPalmPosition rawPosition canvasWidth canvasHeight r =
     (let h = push_bounded (palmPositionHistory r) rawPosition maxPalmHistory;
          avg = weighted_average (\<lambda>i. real ((i + 1) * (i + 1))) h;
          sm = \<lparr> p_x = lerp (p_x (r_smoothedPosition r)) (p_x avg) 0.25,
                 p_y = lerp (p_y (r_smoothedPosition r)) (p_y avg) 0.25 \<rparr>
      in (\<lparr> p_x = p_x sm * canvasWidth, p_y = p_y sm * canvasHeight \<rparr>,
          r \<lparr> palmPositionHistory := h, r_smoothedPosition := sm \<rparr>))"

text \<open>
  detectTap. \<open>now\<close> is the value of \<open>Date.now()\<close>. The test \<open>this.pointingStartTime\<close> is
  false for \<open>null\<close> and for the number \<open>0\<close>.
\<close>

definition truthy_time :: "int option \<Rightarrow> bool" where
  "truthy_time t = (case t of None \<Rightarrow> False | Some v \<Rightarrow> v \<noteq> 0)"

definition detectTap :: "int \<Rightarrow> bool \<Rightarrow> point \<Rightarrow> recognizer \<Rightarrow> bool \<times> recognizer" where
  "detectTap now pointing cursor r =
     (let r1 = (if pointing \<and> \<not> wasPointing r
                then r \<lparr> pointingStartTime := Some now, pointingStartPosition := Some cursor \<rparr>
                else r)
      in if \<not> pointing \<and> wasPointing r1 \<and> truthy_time (pointingStartTime r1)
            \<and> (let duration = now - the (pointingStartTime r1);
                    timeSinceLastTap = now - lastTapTime r1;
                    movement = (case pointingStartPosition r1 of
                                  None \<Rightarrow> 0
                                | Some sp \<Rightarrow> distance sp cursor)
                in duration < TAP_DURATION \<and> movement < 0.1
                   \<and> timeSinceLastTap > TAP_COOLDOWN)
         then (True, r1 \<lparr> lastTapTime := now, wasPointing := pointing,
                          pointingStartTime := None \<rparr>)
         else (False, r1 \<lparr> wasPointing := pointing \<rparr>))"

definition emitGestureEvents :: "gesture \<Rightarrow> recognizer \<Rightarrow> recognizer" where
  "emitGestureEvents g r =
     (let r1 = (if isTap g then r_emit (TapEvent g) r else r);
          r2 = (if isFist g then r_emit (FistEvent g) r1 else r1)
      in r_emit (MoveEvent g) r2)"

text \<open>
  process. \<open>hands\<close> is \<open>None\<close> when the argument is \<open>null\<close> or \<open>undefined\<close>. \<open>now\<close> is the
  clock read by detectTap, \<open>stamp\<close> the one read for the gesture history. The result is
  the thrown error, or the returned gesture (\<open>None\<close> for \<open>null\<close>) with the new state.
\<close>

definition process ::
  "int \<Rightarrow> int \<Rightarrow> landmark list list option \<Rightarrow> real \<Rightarrow> real \<Rightarrow> recognizer
     \<Rightarrow> error + (gesture option \<times> recognizer)" where
  "process now stamp hands canvasWidth canvasHeight r =
     (case hands of
        None \<Rightarrow> Inr (None, r_emit NoHands (resetState r))
      | Some [] \<Rightarrow> Inr (None, r_emit NoHands (resetState r))
      | Some (ls # others) \<Rightarrow>
          (case analyzeHand ls of
             Inl e \<Rightarrow> Inl e
           | Inr g \<Rightarrow>
               let (sp, r1) = (if isOpenPalm g
                               then smoothPalmPosition (cursorPosition g) canvasWidth canvasHeight r
                               else smoothPosition (cursorPosition g) canvasWidth canvasHeight r);
                   (tap, r2) = detectTap now (isPointing g) (cursorPosition g) r1;
                   g' = g \<lparr> smoothedPosition := Some sp, isTap := tap \<rparr>;
                   r3 = r2 \<lparr> gestureHistory :=
                              push_bounded (gestureHistory r2) (g_type g', stamp) 20 \<rparr>;
                   r4 = emitGestureEvents g' r3
               in Inr (Some g', r4 \<lparr> previousGestureType := Some (g_type g') \<rparr>)))"

text \<open>
  A run of frames through the recognizer, for a hand that is present in every frame:
  each frame carries the clock reading and the landmarks of the first hand. The
  result lists the \<open>isTap\<close> flag of every returned gesture.
\<close>

fun run_frames ::
  "(int \<times> landmark list) list \<Rightarrow> recognizer \<Rightarrow> error + (bool list \<times> recognizer)" where
  "run_frames [] r = Inr ([], r)"
| "run_frames ((now, ls) # fs) r =
     (case process now now (Some [ls]) 1 1 r of
        Inl e \<Rightarrow> Inl e
      | Inr (None, r') \<Rightarrow> run_frames fs r'
      | Inr (Some g, r') \<Rightarrow>
          (case run_frames fs r' of
             Inl e \<Rightarrow> Inl e
           | Inr (taps, r'') \<Rightarrow> Inr (isTap g # taps, r'')))"

subsection \<open>The tap condition in the words of the specification\<close>

text \<open>
  The frame at time \<open>now\<close>, with pointing flag \<open>pointing\<close> and cursor \<open>cursor\<close>, seen from
  the state \<open>r\<close> left by the frames before it, is a falling edge of the pointing flag
  whose episode lasted less than 300 ms and moved less than 0.1 from its start
  position. \<open>tap_condition\<close> adds that the frame comes more than 400 ms after the
  last accepted tap; \<open>claimed_tap_condition\<close> that the episode began more than 400 ms
  after the last accepted tap. Both are compared with detectTap below.
\<close>

definition short_still_episode :: "int \<Rightarrow> bool \<Rightarrow> point \<Rightarrow> recognizer \<Rightarrow> bool" where
  "short_still_episode now pointing cursor r =
     (\<not> pointing \<and> wasPointing r \<and> truthy_time (pointingStartTime r)
      \<and> now - the (pointingStartTime r) < 300
      \<and> (case pointingStartPosition r of None \<Rightarrow> 0 | Some sp \<Rightarrow> distance sp cursor) < 0.1)"

definition tap_condition :: "int \<Rightarrow> bool \<Rightarrow> point \<Rightarrow> recognizer \<Rightarrow> bool" where
  "tap_condition now pointing cursor r =
     (short_still_episode now pointing cursor r \<and> now - lastTapTime r > 400)"

definition claimed_tap_condition :: "int \<Rightarrow> bool \<Rightarrow> point \<Rightarrow> recognizer \<Rightarrow> bool" where
  "claimed_tap_condition now pointing cursor r =
     (short_still_episode now pointing cursor r
      \<and> the (pointingStartTime r) - lastTapTime r > 400)"

subsection \<open>A hand-crafted landmark fixture\<close>

text \<open>
  All 21 landmarks on the vertical line \<open>x = 0.5\<close>: wrist at the bottom (\<open>y = 1\<close>),
  knuckles at 0.6, middle joints at 0.5, the middle, ring and pinky tips curled
  (0.7), and the index tip at height \<open>tip\<close>. The index finger counts as extended
  when \<open>tip < 0.52\<close>; the cursor is at \<open>(0.5, tip)\<close>.
\<close>

definition fixture_hand :: "real \<Rightarrow> landmark list" where
  "fixture_hand tip =
     map (\<lambda>y. \<lparr> l_x = 0.5, l_y = y, l_z = 0 \<rparr>)
       [1,
        0.9, 0.8, 0.7, 0.6,
        0.6, 0.5, 0.45, tip,
        0.6, 0.5, 0.6, 0.7,
        0.6, 0.5, 0.6, 0.7,
        0.6, 0.5, 0.6, 0.7]"

section \<open>Viewport transform\<close>

lemma clamp_scale_bounds:
  "minScale \<le> clamp v minScale maxScale \<and> clamp v minScale maxScale \<le> maxScale"
  by (simp add: clamp_def minScale_def maxScale_def)

text \<open>
  C4. For a transform whose scale is not zero, converting a screen point to canvas
  coordinates and back with the same transform returns the screen point (exactly,
  over the reals).
\<close>

theorem canvasToScreen_screenToCanvas:
  assumes "t_scale (transform c) \<noteq> 0"
  shows "canvasToScreen c (p_x (screenToCanvas c sx sy)) (p_y (screenToCanvas c sx sy))
         = \<lparr> p_x = sx, p_y = sy \<rparr>"
  using assms by (simp add: canvasToScreen_def screenToCanvas_def)

theorem canvasToScreen_screenToCanvas_witness:
  "t_scale (transform (init_canvas \<lparr> transform := \<lparr> t_x = 10, t_y = 20, t_scale = 2 \<rparr> \<rparr>)) \<noteq> 0
   \<and> (let c = init_canvas \<lparr> transform := \<lparr> t_x = 10, t_y = 20, t_scale = 2 \<rparr> \<rparr> in
        screenToCanvas c 31 47 = \<lparr> p_x = 21 / 2, p_y = 27 / 2 \<rparr>
        \<and> canvasToScreen c (p_x (screenToCanvas c 31 47)) (p_y (screenToCanvas c 31 47))
            = \<lparr> p_x = 31, p_y = 47 \<rparr>)"
  using canvasToScreen_screenToCanvas
          [of "init_canvas \<lparr> transform := \<lparr> t_x = 10, t_y = 20, t_scale = 2 \<rparr> \<rparr>" 31 47]
  by (simp add: Let_def screenToCanvas_def)

text \<open>
  C5. For a scale in [0.1, 4], a factor f > 0 and an anchor (cx, cy), the canvas point
  under the anchor is the same before and after zoom(f, cx, cy), also when the new
  scale is clamped; and when the clamped scale equals the old one, zoom changes no
  state and emits no notification.
\<close>

theorem zoom_anchor_invariant:
  assumes "0.1 \<le> t_scale (transform c)" and "t_scale (transform c) \<le> 4" and "0 < f"
  shows "screenToCanvas (zoom f cx cy c) cx cy = screenToCanvas c cx cy
         \<and> (clamp (t_scale (transform c) * f) minScale maxScale = t_scale (transform c)
              \<longrightarrow> zoom f cx cy c = c \<and> emitted (zoom f cx cy c) = emitted c)"
proof -
  let ?old = "t_scale (transform c)"
  let ?new = "clamp (?old * f) minScale maxScale"
  have old_nz: "?old \<noteq> 0" using assms by simp
  have new_nz: "?new \<noteq> 0" using clamp_scale_bounds [of "?old * f"] by (simp add: minScale_def)
  show ?thesis
  proof (cases "?new = ?old")
    case True
    then show ?thesis by (simp add: zoom_def Let_def)
  next
    case False
    then show ?thesis using old_nz new_nz
      by (simp add: zoom_def Let_def screenToCanvas_def emit_def requestRender_def)
  qed
qed

theorem zoom_anchor_invariant_witness:
  "(0.1 \<le> t_scale (transform init_canvas) \<and> t_scale (transform init_canvas) \<le> 4 \<and> (0::real) < 8
    \<and> clamp (t_scale (transform init_canvas) * 8) minScale maxScale = 4
    \<and> transform (zoom 8 100 50 init_canvas) = \<lparr> t_x = - 300, t_y = - 150, t_scale = 4 \<rparr>
    \<and> screenToCanvas (zoom 8 100 50 init_canvas) 100 50 = screenToCanvas init_canvas 100 50)
   \<and> (let c4 = zoom 8 100 50 init_canvas in
        0.1 \<le> t_scale (transform c4) \<and> t_scale (transform c4) \<le> 4 \<and> (0::real) < 2
        \<and> clamp (t_scale (transform c4) * 2) minScale maxScale = t_scale (transform c4)
        \<and> zoom 2 7 9 c4 = c4 \<and> emitted (zoom 2 7 9 c4) = emitted c4)"
proof -
  have a: "0.1 \<le> t_scale (transform init_canvas)" "t_scale (transform init_canvas) \<le> 4"
    by (simp_all add: init_canvas_def)
  have tr: "transform (zoom 8 100 50 init_canvas) = \<lparr> t_x = - 300, t_y = - 150, t_scale = 4 \<rparr>"
    by (simp add: zoom_def Let_def init_canvas_def clamp_def minScale_def maxScale_def
          emit_def requestRender_def)
  have b: "0.1 \<le> t_scale (transform (zoom 8 100 50 init_canvas))"
          "t_scale (transform (zoom 8 100 50 init_canvas)) \<le> 4"
    by (simp_all add: tr)
  have cl: "clamp (t_scale (transform (zoom 8 100 50 init_canvas)) * 2) minScale maxScale
            = t_scale (transform (zoom 8 100 50 init_canvas))"
    by (simp add: tr clamp_def minScale_def maxScale_def)
  have cl0: "clamp (t_scale (transform init_canvas) * 8) minScale maxScale = 4"
    by (simp add: init_canvas_def clamp_def minScale_def maxScale_def)
  from zoom_anchor_invariant [OF a, of 8 100 50]
       zoom_anchor_invariant [OF b, of 2 7 9] a b cl cl0 tr
  show ?thesis by (simp add: Let_def)
qed

section \<open>History\<close>

lemma emit_fields [simp]:
  "history (emit ev c) = history c" "historyIndex (emit ev c) = historyIndex c"
  "elements (emit ev c) = elements c" "selectedElement (emit ev c) = selectedElement c"
  "store (emit ev c) = store c" "transform (emit ev c) = transform c"
  by (simp_all add: emit_def)

lemma requestRender_fields [simp]:
  "history (requestRender c) = history c" "historyIndex (requestRender c) = historyIndex c"
  "elements (requestRender c) = elements c"
  "selectedElement (requestRender c) = selectedElement c"
  "store (requestRender c) = store c" "transform (requestRender c) = transform c"
  by (simp_all add: requestRender_def)

lemma saveHistory_fields [simp]:
  "elements (saveHistory c) = elements c" "selectedElement (saveHistory c) = selectedElement c"
  "store (saveHistory c) = store c" "transform (saveHistory c) = transform c"
  by (simp_all add: saveHistory_def Let_def)

text \<open>What saveHistory does to the history, away from and at the bound.\<close>

lemma saveHistory_history:
  assumes "- 1 \<le> historyIndex c" and "historyIndex c < int (length (history c))"
  shows "history (saveHistory c) =
           (if historyIndex c + 2 > int maxHistory
            then tl (take (nat (historyIndex c + 1)) (history c) @ [snapshot c])
            else take (nat (historyIndex c + 1)) (history c) @ [snapshot c])"
    and "historyIndex (saveHistory c) =
           (if historyIndex c + 2 > int maxHistory then historyIndex c else historyIndex c + 1)"
proof -
  have len: "length (slice0 (history c) (historyIndex c + 1)) = nat (historyIndex c + 1)"
    using assms by (simp add: slice0_def)
  have sl: "slice0 (history c) (historyIndex c + 1) = take (nat (historyIndex c + 1)) (history c)"
    using assms by (simp add: slice0_def)
  have cond: "(maxHistory < length (slice0 (history c) (historyIndex c + 1) @ [snapshot c]))
              = (historyIndex c + 2 > int maxHistory)"
    using assms len by (simp add: nat_less_iff) linarith
  show "history (saveHistory c) =
           (if historyIndex c + 2 > int maxHistory
            then tl (take (nat (historyIndex c + 1)) (history c) @ [snapshot c])
            else take (nat (historyIndex c + 1)) (history c) @ [snapshot c])"
    using cond sl by (simp add: saveHistory_def Let_def)
  show "historyIndex (saveHistory c) =
           (if historyIndex c + 2 > int maxHistory then historyIndex c else historyIndex c + 1)"
    using cond by (simp add: saveHistory_def Let_def)
qed

lemma saveHistory_cursor_last:
  assumes "- 1 \<le> historyIndex c" and "historyIndex c < int (length (history c))"
      and "length (history c) \<le> 50"
  shows "hist_inv (saveHistory c)"
    and "historyIndex (saveHistory c) = int (length (history (saveHistory c))) - 1"
    and "history (saveHistory c) ! nat (historyIndex (saveHistory c)) = snapshot c"
proof -
  let ?k = "nat (historyIndex c + 1)"
  let ?h = "take ?k (history c) @ [snapshot c]"
  have k: "?k \<le> length (history c)" "?k \<le> 50" using assms by auto
  have lenh: "length ?h = ?k + 1" using k by simp
  have sl: "slice0 (history c) (historyIndex c + 1) = take ?k (history c)"
    using assms by (auto simp: slice0_def)
  show "hist_inv (saveHistory c)"
    using assms k lenh sl
    by (auto simp: saveHistory_def Let_def hist_inv_def maxHistory_def)
  show "historyIndex (saveHistory c) = int (length (history (saveHistory c))) - 1"
    using assms k lenh sl
    by (auto simp: saveHistory_def Let_def maxHistory_def)
  show "history (saveHistory c) ! nat (historyIndex (saveHistory c)) = snapshot c"
  proof (cases "length ?h > maxHistory")
    case True
    then have k50: "?k = 50" using k lenh by (simp add: maxHistory_def)
    then have idx: "historyIndex c = 49" by linarith
    have "tl ?h ! 49 = ?h ! 50"
      using lenh k50 by (simp add: nth_tl)
    also have "\<dots> = snapshot c"
      using k k50 by (simp add: nth_append)
    finally show ?thesis using True sl idx by (simp add: saveHistory_def Let_def)
  next
    case False
    have "?h ! ?k = snapshot c" using k by (simp add: nth_append)
    moreover have "nat (historyIndex c + 1) = ?k" by simp
    ultimately show ?thesis using False sl assms
      by (simp add: saveHistory_def Let_def)
  qed
qed

lemma hist_inv_weaken:
  "hist_inv c \<Longrightarrow>
   - 1 \<le> historyIndex c \<and> historyIndex c < int (length (history c))
   \<and> length (history c) \<le> 50"
  by (simp add: hist_inv_def)

lemma hist_inv_cong:
  "history c' = history c \<Longrightarrow> historyIndex c' = historyIndex c \<Longrightarrow> hist_inv c' = hist_inv c"
  by (simp add: hist_inv_def)

lemma restoreFromHistory_ok:
  assumes "hist_inv c"
  shows "\<exists>c'. restoreFromHistory gids c = Inr c' \<and> history c' = history c
              \<and> historyIndex c' = historyIndex c"
  using assms by (simp add: restoreFromHistory_def hist_inv_def Let_def)

lemma undo_hist_inv:
  assumes "hist_inv c"
  shows "\<exists>c'. undo gids c = Inr c' \<and> hist_inv c'"
proof (cases "canUndo c")
  case False
  then show ?thesis using assms by (simp add: undo_def)
next
  case True
  let ?d = "c \<lparr> historyIndex := historyIndex c - 1 \<rparr>"
  have d: "hist_inv ?d" using assms True by (simp add: hist_inv_def canUndo_def)
  from restoreFromHistory_ok [OF d, of gids] obtain c'
    where r: "restoreFromHistory gids ?d = Inr c'"
      and h: "history c' = history ?d" "historyIndex c' = historyIndex ?d" by blast
  have "hist_inv (emit EvUndo c')" using d h by (simp add: hist_inv_def)
  then show ?thesis using True r by (simp add: undo_def)
qed

lemma redo_hist_inv:
  assumes "hist_inv c"
  shows "\<exists>c'. redo gids c = Inr c' \<and> hist_inv c'"
proof (cases "canRedo c")
  case False
  then show ?thesis using assms by (simp add: redo_def)
next
  case True
  let ?d = "c \<lparr> historyIndex := historyIndex c + 1 \<rparr>"
  have d: "hist_inv ?d" using assms True by (simp add: hist_inv_def canRedo_def)
  from restoreFromHistory_ok [OF d, of gids] obtain c'
    where r: "restoreFromHistory gids ?d = Inr c'"
      and h: "history c' = history ?d" "historyIndex c' = historyIndex ?d" by blast
  have "hist_inv (emit EvRedo c')" using d h by (simp add: hist_inv_def)
  then show ?thesis using True r by (simp add: redo_def)
qed

lemma saveHistory_hist_inv:
  assumes "hist_inv c"
      and "history d = history c" and "historyIndex d = historyIndex c"
  shows "hist_inv (saveHistory d)"
proof -
  have "hist_inv d" using assms by (simp add: hist_inv_def)
  from hist_inv_weaken [OF this] show ?thesis
    by (intro saveHistory_cursor_last(1)) simp_all
qed

lemma apply_op_hist_inv:
  assumes "hist_inv c"
  shows "\<exists>c'. apply_op op c = Inr c' \<and> hist_inv c'"
proof (cases op)
  case (AddElement r)
  have "hist_inv (saveHistory (c \<lparr> elements := elements c @ [r] \<rparr>))"
    using assms by (rule saveHistory_hist_inv) simp_all
  then show ?thesis using AddElement by (simp add: addElement_def hist_inv_def)
next
  case (RemoveElement r)
  show ?thesis
  proof (cases "r \<in> set (elements c)")
    case False
    then show ?thesis using RemoveElement assms by (simp add: removeElement_def)
  next
    case True
    let ?c1 = "c \<lparr> elements := remove1 r (elements c) \<rparr>"
    let ?c2 = "if selectedElement ?c1 = Some r then ?c1 \<lparr> selectedElement := None \<rparr> else ?c1"
    have "hist_inv (saveHistory ?c2)"
      using assms by (rule saveHistory_hist_inv) simp_all
    then have "hist_inv (removeElement r c)"
      using True by (simp add: removeElement_def Let_def hist_inv_def)
    then show ?thesis using RemoveElement by simp
  qed
next
  case Clear
  have "hist_inv (saveHistory (c \<lparr> elements := [], selectedElement := None \<rparr>))"
    using assms by (rule saveHistory_hist_inv) simp_all
  then show ?thesis using Clear by (simp add: clear_def hist_inv_def)
next
  case SaveHistory
  have "hist_inv (saveHistory c)" using assms by (rule saveHistory_hist_inv) simp_all
  then show ?thesis using SaveHistory by simp
next
  case (Undo gids)
  then show ?thesis using undo_hist_inv [OF assms, of gids] by simp
next
  case (Redo gids)
  then show ?thesis using redo_hist_inv [OF assms, of gids] by simp
qed

lemma run_ops_hist_inv:
  "hist_inv c \<Longrightarrow> \<exists>c'. run_ops ops c = Inr c' \<and> hist_inv c'"
proof (induction ops arbitrary: c)
  case Nil
  then show ?case by simp
next
  case (Cons op ops)
  from apply_op_hist_inv [OF Cons.prems, of op] obtain c1
    where a: "apply_op op c = Inr c1" and i: "hist_inv c1" by blast
  from Cons.IH [OF i] a show ?case by simp
qed

lemma apply_op_before_first_snapshot:
  assumes "history c = []" and "historyIndex c = - 1"
  shows "\<exists>c'. apply_op op c = Inr c'
              \<and> (history c' = [] \<and> historyIndex c' = - 1 \<or> hist_inv c')"
proof -
  have sv: "hist_inv (saveHistory d)"
    if "history d = history c" "historyIndex d = historyIndex c" for d
    using that assms by (intro saveHistory_cursor_last(1)) simp_all
  show ?thesis
  proof (cases op)
    case (AddElement r)
    have "hist_inv (saveHistory (c \<lparr> elements := elements c @ [r] \<rparr>))" by (rule sv) simp_all
    then show ?thesis using AddElement by (simp add: addElement_def hist_inv_def)
  next
    case (RemoveElement r)
    show ?thesis
    proof (cases "r \<in> set (elements c)")
      case False
      then show ?thesis using RemoveElement assms by (simp add: removeElement_def)
    next
      case True
      let ?c1 = "c \<lparr> elements := remove1 r (elements c) \<rparr>"
      let ?c2 = "if selectedElement ?c1 = Some r then ?c1 \<lparr> selectedElement := None \<rparr> else ?c1"
      have "hist_inv (saveHistory ?c2)" by (rule sv) simp_all
      then have "hist_inv (removeElement r c)"
        using True by (simp add: removeElement_def Let_def hist_inv_def)
      then show ?thesis using RemoveElement by simp
    qed
  next
    case Clear
    have "hist_inv (saveHistory (c \<lparr> elements := [], selectedElement := None \<rparr>))"
      by (rule sv) simp_all
    then show ?thesis using Clear by (simp add: clear_def hist_inv_def)
  next
    case SaveHistory
    have "hist_inv (saveHistory c)" by (rule sv) simp_all
    then show ?thesis using SaveHistory by simp
  next
    case (Undo gids)
    then show ?thesis using assms by (simp add: undo_def canUndo_def)
  next
    case (Redo gids)
    then show ?thesis using assms by (simp add: redo_def canRedo_def)
  qed
qed

lemma run_ops_from_start:
  assumes "history c = []" and "historyIndex c = - 1"
  shows "\<exists>c'. run_ops ops c = Inr c'
              \<and> (history c' = [] \<and> historyIndex c' = - 1 \<or> hist_inv c')"
  using assms
proof (induction ops arbitrary: c)
  case Nil
  then show ?case by simp
next
  case (Cons op ops)
  from apply_op_before_first_snapshot [OF Cons.prems, of op] obtain c1
    where a: "apply_op op c = Inr c1"
      and d: "history c1 = [] \<and> historyIndex c1 = - 1 \<or> hist_inv c1" by blast
  from d show ?case
  proof
    assume "history c1 = [] \<and> historyIndex c1 = - 1"
    then show ?thesis using Cons.IH [of c1] a by simp
  next
    assume "hist_inv c1"
    from run_ops_hist_inv [OF this, of ops] a show ?thesis by auto
  qed
qed

lemma saveHistory_eviction:
  assumes "hist_inv c" and "historyIndex c = 49"
  shows "history (saveHistory c) = tl (history c) @ [snapshot c]"
    and "historyIndex (saveHistory c) = 49"
    and "length (history (saveHistory c)) = 50"
    and "history (saveHistory c) ! 48 = history c ! 49"
proof -
  have len: "length (history c) = 50" using assms by (simp add: hist_inv_def)
  then have ne: "history c \<noteq> []" by auto
  have sl: "slice0 (history c) (historyIndex c + 1) = history c"
    using assms len by (simp add: slice0_def)
  show h: "history (saveHistory c) = tl (history c) @ [snapshot c]"
    using sl len ne by (simp add: saveHistory_def Let_def maxHistory_def)
  show "historyIndex (saveHistory c) = 49"
    using sl len assms by (simp add: saveHistory_def Let_def maxHistory_def)
  show "length (history (saveHistory c)) = 50" using h len by simp
  show "history (saveHistory c) ! 48 = history c ! 49"
    using h len by (simp add: nth_append nth_tl)
qed

text \<open>
  C3. From the initial canvas, every run of scene operations (addElement,
  removeElement, clear, the drag-end saveHistory) interleaved with undo and redo
  returns without throwing, and its history is either still empty (no snapshot saved
  yet) or satisfies 0 \<le> historyIndex < history.length \<le> 50; once the invariant holds it
  holds after every further run. undo and redo at the boundary return the state
  unchanged. After saveHistory the cursor addresses the snapshot just saved; when the
  oldest snapshot is evicted (cursor at 49 of 50) the cursor stays at 49, the history
  keeps 50 entries, and index 48 holds the snapshot that was current before.
\<close>

theorem history_invariant:
  assumes "hist_inv c"
  shows "(\<exists>c'. run_ops ops init_canvas = Inr c'
               \<and> (history c' = [] \<and> historyIndex c' = - 1 \<or> hist_inv c'))
         \<and> (\<exists>c'. run_ops ops c = Inr c' \<and> hist_inv c')
         \<and> (\<not> canUndo c \<longrightarrow> undo gids c = Inr c)
         \<and> (\<not> canRedo c \<longrightarrow> redo gids c = Inr c)
         \<and> history (saveHistory c) ! nat (historyIndex (saveHistory c)) = snapshot c
         \<and> (historyIndex c = 49 \<longrightarrow>
               history (saveHistory c) = tl (history c) @ [snapshot c]
               \<and> historyIndex (saveHistory c) = 49
               \<and> length (history (saveHistory c)) = 50
               \<and> history (saveHistory c) ! 48 = history c ! 49)"
proof -
  have a: "\<exists>c'. run_ops ops init_canvas = Inr c'
               \<and> (history c' = [] \<and> historyIndex c' = - 1 \<or> hist_inv c')"
    by (rule run_ops_from_start) (simp_all add: init_canvas_def)
  have b: "\<exists>c'. run_ops ops c = Inr c' \<and> hist_inv c'"
    using assms by (rule run_ops_hist_inv)
  have u: "\<not> canUndo c \<longrightarrow> undo gids c = Inr c" by (simp add: undo_def)
  have r: "\<not> canRedo c \<longrightarrow> redo gids c = Inr c" by (simp add: redo_def)
  have s: "history (saveHistory c) ! nat (historyIndex (saveHistory c)) = snapshot c"
    using hist_inv_weaken [OF assms] by (intro saveHistory_cursor_last(3)) simp_all
  have e: "historyIndex c = 49 \<longrightarrow>
               history (saveHistory c) = tl (history c) @ [snapshot c]
               \<and> historyIndex (saveHistory c) = 49
               \<and> length (history (saveHistory c)) = 50
               \<and> history (saveHistory c) ! 48 = history c ! 49"
    using saveHistory_eviction [OF assms] by blast
  from a b u r s e show ?thesis by blast
qed

theorem history_invariant_witness:
  "(let c1 = saveHistory init_canvas;
        g = (\<lambda>i. ''id'');
        ops = [Clear, Undo g, Undo g, Redo g, SaveHistory]
    in hist_inv c1
       \<and> (\<exists>c'. run_ops ops c1 = Inr c' \<and> hist_inv c')
       \<and> \<not> canUndo c1 \<and> undo g c1 = Inr c1
       \<and> \<not> canRedo c1 \<and> redo g c1 = Inr c1
       \<and> history (saveHistory c1) ! nat (historyIndex (saveHistory c1)) = snapshot c1)
   \<and> (let c50 = init_canvas \<lparr> history := replicate 50 [], historyIndex := 49 \<rparr> in
        hist_inv c50 \<and> historyIndex c50 = 49
        \<and> history (saveHistory c50) = tl (history c50) @ [snapshot c50]
        \<and> historyIndex (saveHistory c50) = 49
        \<and> length (history (saveHistory c50)) = 50
        \<and> history (saveHistory c50) ! 48 = history c50 ! 49)"
proof -
  let ?c1 = "saveHistory init_canvas"
  let ?g = "\<lambda>i::nat. ''id''"
  let ?c50 = "init_canvas \<lparr> history := replicate 50 [], historyIndex := 49 \<rparr>"
  have i1: "hist_inv ?c1"
    by (simp add: saveHistory_def Let_def init_canvas_def slice0_def maxHistory_def
          hist_inv_def)
  have idx1: "historyIndex ?c1 = 0" "length (history ?c1) = 1"
    by (simp_all add: saveHistory_def Let_def init_canvas_def slice0_def maxHistory_def)
  have nu: "\<not> canUndo ?c1" "\<not> canRedo ?c1"
    using idx1 by (simp_all add: canUndo_def canRedo_def)
  have i50: "hist_inv ?c50" "historyIndex ?c50 = 49"
    by (simp_all add: hist_inv_def)
  from history_invariant [OF i1, of "[Clear, Undo ?g, Undo ?g, Redo ?g, SaveHistory]" ?g]
       history_invariant [OF i50(1), of "[]" ?g] i1 nu i50
  show ?thesis unfolding Let_def by blast
qed

section \<open>Selection after undo and redo\<close>

lemma new_Element_selected [simp]: "selected (new_Element gid d) = False"
  by (simp add: new_Element_def)

lemma line_updateBounds_selected [simp]: "selected (line_updateBounds e) = selected e"
  by (simp add: line_updateBounds_def)

lemma path_updateBounds_selected [simp]: "selected (path_updateBounds e) = selected e"
  by (simp add: path_updateBounds_def Let_def)

lemma fromJSON_selected [simp]: "selected (fromJSON gid d) = False"
  by (simp add: fromJSON_def new_Rectangle_def new_Circle_def new_Line_def new_Arrow_def
        new_FreehandPath_def Let_def)

lemma restoreFromHistory_result:
  assumes "restoreFromHistory gids c = Inr c'"
  shows "selectedElement c' = None"
    and "map (\<lambda>r. store c' ! r) (elements c')
         = map (\<lambda>i. fromJSON (gids i) (history c ! nat (historyIndex c) ! i))
             [0 ..< length (history c ! nat (historyIndex c))]"
    and "historyIndex c' = historyIndex c" and "history c' = history c"
proof -
  let ?st = "history c ! nat (historyIndex c)"
  let ?objs = "map (\<lambda>i. fromJSON (gids i) (?st ! i)) [0 ..< length ?st]"
  from assms have ok: "\<not> (historyIndex c < 0 \<or> historyIndex c \<ge> int (length (history c)))"
    by (auto simp: restoreFromHistory_def split: if_splits)
  from assms ok have c': "c' = emit (EvHistoryChanged
        (canUndo (requestRender (c \<lparr> store := store c @ ?objs,
             elements := [length (store c) ..< length (store c) + length ?st],
             selectedElement := None \<rparr>)))
        (canRedo (requestRender (c \<lparr> store := store c @ ?objs,
             elements := [length (store c) ..< length (store c) + length ?st],
             selectedElement := None \<rparr>))))
      (requestRender (c \<lparr> store := store c @ ?objs,
             elements := [length (store c) ..< length (store c) + length ?st],
             selectedElement := None \<rparr>))"
    by (simp add: restoreFromHistory_def Let_def)
  show "selectedElement c' = None" by (simp add: c')
  show "historyIndex c' = historyIndex c" by (simp add: c')
  show "history c' = history c" by (simp add: c')
  have st: "store c' = store c @ ?objs"
    and el: "elements c' = [length (store c) ..< length (store c) + length ?st]"
    by (simp_all add: c')
  show "map (\<lambda>r. store c' ! r) (elements c') = ?objs"
  proof (rule nth_equalityI)
    show "length (map (\<lambda>r. store c' ! r) (elements c')) = length ?objs"
      by (simp add: el)
  next
    fix i assume "i < length (map (\<lambda>r. store c' ! r) (elements c'))"
    then have i: "i < length ?st" by (simp add: el)
    then have "map (\<lambda>r. store c' ! r) (elements c') ! i = store c' ! (length (store c) + i)"
      by (simp add: el)
    also have "\<dots> = ?objs ! i" using i by (simp add: st nth_append)
    finally show "map (\<lambda>r. store c' ! r) (elements c') ! i = ?objs ! i" .
  qed
qed

lemma restoreFromHistory_unselected:
  assumes "restoreFromHistory gids c = Inr c'"
  shows "list_all (\<lambda>r. \<not> selected (store c' ! r)) (elements c')"
proof -
  have "list_all (\<lambda>e. \<not> selected e) (map (\<lambda>r. store c' ! r) (elements c'))"
    unfolding restoreFromHistory_result(2) [OF assms] by (simp add: list_all_iff)
  then show ?thesis by (simp add: list_all_iff)
qed

text \<open>
  C10. After an undo or a redo that restores a snapshot (canUndo, respectively canRedo,
  held and the call returned), selectedElement is null, the scene consists of the
  elements rebuilt from the snapshot at the new cursor, and none of them has
  selected = true, whatever was selected when the snapshot was taken.
\<close>

theorem undo_redo_clear_selection:
  "(canUndo c \<and> undo gids c = Inr c' \<longrightarrow>
      selectedElement c' = None
      \<and> list_all (\<lambda>r. \<not> selected (store c' ! r)) (elements c')
      \<and> historyIndex c' = historyIndex c - 1
      \<and> map (\<lambda>r. store c' ! r) (elements c')
          = map (\<lambda>i. fromJSON (gids i) (history c ! nat (historyIndex c - 1) ! i))
              [0 ..< length (history c ! nat (historyIndex c - 1))])
   \<and> (canRedo c \<and> redo gids c = Inr c' \<longrightarrow>
      selectedElement c' = None
      \<and> list_all (\<lambda>r. \<not> selected (store c' ! r)) (elements c')
      \<and> historyIndex c' = historyIndex c + 1
      \<and> map (\<lambda>r. store c' ! r) (elements c')
          = map (\<lambda>i. fromJSON (gids i) (history c ! nat (historyIndex c + 1) ! i))
              [0 ..< length (history c ! nat (historyIndex c + 1))])"
proof (intro conjI impI)
  assume a: "canUndo c \<and> undo gids c = Inr c'"
  let ?d = "c \<lparr> historyIndex := historyIndex c - 1 \<rparr>"
  from a obtain c1 where r: "restoreFromHistory gids ?d = Inr c1" and c': "c' = emit EvUndo c1"
    by (auto simp: undo_def split: sum.splits)
  show "selectedElement c' = None" using restoreFromHistory_result(1) [OF r] c' by simp
  show "list_all (\<lambda>r. \<not> selected (store c' ! r)) (elements c')"
    using restoreFromHistory_unselected [OF r] c' by simp
  show "historyIndex c' = historyIndex c - 1"
    using restoreFromHistory_result(3) [OF r] c' by simp
  show "map (\<lambda>r. store c' ! r) (elements c')
          = map (\<lambda>i. fromJSON (gids i) (history c ! nat (historyIndex c - 1) ! i))
              [0 ..< length (history c ! nat (historyIndex c - 1))]"
    using restoreFromHistory_result(2) [OF r] c' by simp
next
  assume a: "canRedo c \<and> redo gids c = Inr c'"
  let ?d = "c \<lparr> historyIndex := historyIndex c + 1 \<rparr>"
  from a obtain c1 where r: "restoreFromHistory gids ?d = Inr c1" and c': "c' = emit EvRedo c1"
    by (auto simp: redo_def split: sum.splits)
  show "selectedElement c' = None" using restoreFromHistory_result(1) [OF r] c' by simp
  show "list_all (\<lambda>r. \<not> selected (store c' ! r)) (elements c')"
    using restoreFromHistory_unselected [OF r] c' by simp
  show "historyIndex c' = historyIndex c + 1"
    using restoreFromHistory_result(3) [OF r] c' by simp
  show "map (\<lambda>r. store c' ! r) (elements c')
          = map (\<lambda>i. fromJSON (gids i) (history c ! nat (historyIndex c + 1) ! i))
              [0 ..< length (history c ! nat (historyIndex c + 1))]"
    using restoreFromHistory_result(2) [OF r] c' by simp
qed

lemma undo_history:
  assumes "undo gids c = Inr c'"
  shows "history c' = history c"
proof (cases "canUndo c")
  case False
  then show ?thesis using assms by (simp add: undo_def)
next
  case True
  then obtain c1
    where r: "restoreFromHistory gids (c \<lparr> historyIndex := historyIndex c - 1 \<rparr>) = Inr c1"
      and c': "c' = emit EvUndo c1"
    using assms by (auto simp: undo_def split: sum.splits)
  from restoreFromHistory_result(4) [OF r] c' show ?thesis by simp
qed

theorem undo_redo_clear_selection_witness:
  "(let g = (\<lambda>i. ''new'');
        c1 = snd (new_object (new_Rectangle ''a''
                    (no_options \<lparr> o_x := Some 1, o_y := Some 2,
                                  o_width := Some 30, o_height := Some 40 \<rparr>)) init_canvas);
        c3 = selectElement (Some 0) (addElement 0 c1);
        c5 = clear (saveHistory c3)
    in selectedElement c3 = Some 0 \<and> selected (store c3 ! 0)
       \<and> history c5 ! 1 = snapshot c3 \<and> historyIndex c5 = 2 \<and> canUndo c5
       \<and> (\<exists>c' c''. undo g c5 = Inr c'
             \<and> selectedElement c' = None
             \<and> list_all (\<lambda>r. \<not> selected (store c' ! r)) (elements c')
             \<and> length (elements c') = 1
             \<and> historyIndex c' = 1
             \<and> canRedo c' \<and> redo g c' = Inr c''
             \<and> selectedElement c'' = None
             \<and> list_all (\<lambda>r. \<not> selected (store c'' ! r)) (elements c'')
             \<and> historyIndex c'' = 2))"
proof -
  let ?g = "\<lambda>i::nat. ''new''"
  let ?c1 = "snd (new_object (new_Rectangle ''a''
                    (no_options \<lparr> o_x := Some 1, o_y := Some 2,
                                  o_width := Some 30, o_height := Some 40 \<rparr>)) init_canvas)"
  let ?c2 = "addElement 0 ?c1"
  let ?c3 = "selectElement (Some 0) ?c2"
  let ?c4 = "saveHistory ?c3"
  let ?c5 = "clear ?c4"
  have st1: "length (store ?c1) = 1" "history ?c1 = []" "historyIndex ?c1 = - 1"
    by (simp_all add: new_object_def init_canvas_def)
  have h2: "history ?c2 = [snapshot (?c1 \<lparr> elements := elements ?c1 @ [0] \<rparr>)]"
           "historyIndex ?c2 = 0" "selectedElement ?c2 = None"
    using st1
    by (simp_all add: addElement_def saveHistory_def Let_def slice0_def maxHistory_def
          new_object_def init_canvas_def)
  have h3: "history ?c3 = history ?c2" "historyIndex ?c3 = 0"
    using h2 by (simp_all add: selectElement_def Let_def set_selected_def)
  have sel3: "selectedElement ?c3 = Some 0" "selected (store ?c3 ! 0)"
    using h2(3) st1(1)
    by (simp_all add: selectElement_def Let_def set_selected_def addElement_def
          new_object_def init_canvas_def)
  have h4: "history ?c4 = history ?c2 @ [snapshot ?c3]" "historyIndex ?c4 = 1"
    using h3 h2 by (simp_all add: saveHistory_def Let_def slice0_def maxHistory_def)
  have h5: "history ?c5 = history ?c2 @ [snapshot ?c3, []]" "historyIndex ?c5 = 2"
    using h4 h2
    by (simp_all add: clear_def saveHistory_def Let_def slice0_def maxHistory_def snapshot_def)
  have n1: "history ?c5 ! 1 = snapshot ?c3" using h5 h2 by simp
  have len3: "length (snapshot ?c3) = 1"
    using h2(3)
    by (simp add: snapshot_def selectElement_def Let_def set_selected_def addElement_def
          new_object_def init_canvas_def)
  have cu: "canUndo ?c5" using h5 by (simp add: canUndo_def)
  have inv5: "hist_inv ?c5" using h5 h2 by (simp add: hist_inv_def)
  from undo_hist_inv [OF inv5, of ?g] obtain c'
    where u: "undo ?g ?c5 = Inr c'" and inv': "hist_inv c'" by blast
  from undo_redo_clear_selection [of ?c5 ?g c'] cu u
  have f1: "selectedElement c' = None"
           "list_all (\<lambda>r. \<not> selected (store c' ! r)) (elements c')"
           "historyIndex c' = historyIndex ?c5 - 1"
           "map (\<lambda>r. store c' ! r) (elements c')
              = map (\<lambda>i. fromJSON (?g i) (history ?c5 ! nat (historyIndex ?c5 - 1) ! i))
                  [0 ..< length (history ?c5 ! nat (historyIndex ?c5 - 1))]"
    by blast+
  have idx': "historyIndex c' = 1" using f1(3) h5 by simp
  have "length (map (\<lambda>r. store c' ! r) (elements c')) = 1"
    unfolding f1(4) using h5(2) n1 len3 by simp
  then have len': "length (elements c') = 1" by simp
  have hist': "history c' = history ?c5" using undo_history [OF u] .
  have cr: "canRedo c'" using idx' hist' h5 h2 by (simp add: canRedo_def)
  from redo_hist_inv [OF inv', of ?g] obtain c''
    where r: "redo ?g c' = Inr c''" by blast
  from undo_redo_clear_selection [of c' ?g c''] cr r
  have f2: "selectedElement c'' = None"
           "list_all (\<lambda>r. \<not> selected (store c'' ! r)) (elements c'')"
           "historyIndex c'' = historyIndex c' + 1"
    by blast+
  have idx'': "historyIndex c'' = 2" using f2(3) idx' by simp
  from sel3 n1 h5(2) cu u f1(1,2) len' idx' cr r f2(1,2) idx''
  show ?thesis unfolding Let_def by blast
qed

section \<open>Serialisation round trip\<close>

lemma fromJSON_id: "e_id (fromJSON gid d) = gid"
  by (simp add: fromJSON_def new_Rectangle_def new_Circle_def new_Line_def new_Arrow_def
        new_FreehandPath_def new_Element_def line_updateBounds_def path_updateBounds_def
        Let_def)

lemma toJSON_id: "o_id (toJSON e) = Some (e_id e)"
  by (cases "shape e") (simp_all add: base_toJSON_def)

text \<open>
  \<open>clone()\<close> stores a fresh id in the JSON, but the clone carries the id that the
  constructor generates.
\<close>

lemma clone_id: "e_id (clone gid1 gid2 e) = gid2"
  by (simp add: clone_def fromJSON_id)

text \<open>
  The constructors take their defaults with \<open>||\<close>, so a field whose value is 0 comes
  back as the default: an opacity of 0 is reloaded as 1.
\<close>

lemma roundtrip_opacity_zero:
  "shape e = Circle \<Longrightarrow> opacity e = 0 \<Longrightarrow> opacity (fromJSON gid (toJSON e)) = 1"
  by (simp add: fromJSON_def base_toJSON_def e_type_def new_Circle_def new_Element_def
        no_options_def)

text \<open>
  A line whose end lies on the axis \<open>x = 0\<close> is reloaded with the end moved to the
  start: \<open>options.endX || this.startX\<close>.
\<close>

lemma roundtrip_line_end_zero:
  "shape e = Line 5 5 0 9 \<Longrightarrow> shape (fromJSON gid (toJSON e)) = Line 5 5 5 9"
  by (simp add: fromJSON_def base_toJSON_def e_type_def new_Line_def new_Element_def
        no_options_def line_updateBounds_def Let_def)

text \<open>
  C1, the code at a failing input. A rectangle with id \<open>abc\<close> is serialised (the id is
  in the JSON) and deserialised while generateId returns \<open>xyz\<close>: the result is a
  rectangle with the same geometry and style, but its id is \<open>xyz\<close>, not \<open>abc\<close>. The
  claim says that a plain deserialise keeps the id.
\<close>

theorem roundtrip_regenerates_id:
  "(let e = new_Rectangle ''abc''
              (no_options \<lparr> o_x := Some 1, o_y := Some 2, o_width := Some 30,
                            o_height := Some 40 \<rparr>);
        e' = fromJSON ''xyz'' (toJSON e)
    in e_id e = ''abc'' \<and> o_id (toJSON e) = Some ''abc''
       \<and> e_type e' = ''rectangle''
       \<and> (e_x e', e_y e', e_width e', e_height e') = (1, 2, 30, 40)
       \<and> e' = e \<lparr> e_id := ''xyz'' \<rparr>
       \<and> e_id e' = ''xyz'' \<and> e_id e' \<noteq> e_id e)"
  by (simp add: Let_def fromJSON_def base_toJSON_def e_type_def new_Rectangle_def
        new_Element_def no_options_def)

section \<open>The recognizer on missing and partial input\<close>

lemma isExtended_short:
  "tipIdx \<ge> length ls \<Longrightarrow> isExtended ls tipIdx pipIdx mcpIdx = Inl TypeError"
  by (simp add: isExtended_def at_index_def)

lemma isExtended_long:
  "tipIdx < length ls \<Longrightarrow> pipIdx < length ls \<Longrightarrow> mcpIdx < length ls \<Longrightarrow>
   \<exists>b. isExtended ls tipIdx pipIdx mcpIdx = Inr b"
  by (cases ls) (simp_all add: isExtended_def at_index_def Let_def)

lemma getFingerStates_short:
  assumes "length ls < 21"
  shows "getFingerStates ls = Inl TypeError"
proof -
  have last: "isExtended ls 20 18 17 = Inl TypeError"
    using assms by (intro isExtended_short) simp
  have err: "x = TypeError" for x :: error by (cases x) simp
  show ?thesis
    unfolding getFingerStates_def using last
    by (auto split: sum.splits intro: err)
qed

lemma getFingerStates_long:
  assumes "length ls \<ge> 21"
  shows "\<exists>fs. getFingerStates ls = Inr fs"
proof -
  obtain th where t: "isThumbExtended ls = Inr th"
    using assms by (auto simp: isThumbExtended_def at_index_def)
  obtain ix where i: "isExtended ls 8 6 5 = Inr ix"
    using isExtended_long [of 8 ls 6 5] assms by auto
  obtain mi where m: "isExtended ls 12 10 9 = Inr mi"
    using isExtended_long [of 12 ls 10 9] assms by auto
  obtain ri where r: "isExtended ls 16 14 13 = Inr ri"
    using isExtended_long [of 16 ls 14 13] assms by auto
  obtain pk where p: "isExtended ls 20 18 17 = Inr pk"
    using isExtended_long [of 20 ls 18 17] assms by auto
  show ?thesis by (simp add: getFingerStates_def t i m r p)
qed

lemma analyzeHand_long:
  assumes "length ls \<ge> 21"
  shows "\<exists>g. analyzeHand ls = Inr g \<and> \<not> isTap g"
proof -
  from getFingerStates_long [OF assms] obtain fs where f: "getFingerStates ls = Inr fs" by blast
  have a: "at_index ls 8 = Some (ls ! 8)" "at_index ls 9 = Some (ls ! 9)"
    using assms by (simp_all add: at_index_def)
  show ?thesis by (simp add: analyzeHand_def f a Let_def)
qed

text \<open>
  C2 as amended. When \<open>hands\<close> is missing or empty, process returns \<open>null\<close> (after
  resetState and the noHands notification) and does not throw. When the first hand has
  fewer than 21 landmarks, process throws a TypeError: no check of the landmark count
  stands before the reads in getFingerStates. With 21 landmarks or more it returns a
  gesture.
\<close>

theorem process_missing_or_partial:
  "process now stamp None w h r = Inr (None, r_emit NoHands (resetState r))
   \<and> process now stamp (Some []) w h r = Inr (None, r_emit NoHands (resetState r))
   \<and> (length ls < 21 \<longrightarrow> process now stamp (Some (ls # others)) w h r = Inl TypeError)
   \<and> (length ls \<ge> 21 \<longrightarrow> (\<exists>g r'. process now stamp (Some (ls # others)) w h r = Inr (Some g, r')))"
proof (intro conjI impI)
  show "process now stamp None w h r = Inr (None, r_emit NoHands (resetState r))"
    by (simp add: process_def)
  show "process now stamp (Some []) w h r = Inr (None, r_emit NoHands (resetState r))"
    by (simp add: process_def)
next
  assume "length ls < 21"
  then have "analyzeHand ls = Inl TypeError"
    by (simp add: analyzeHand_def getFingerStates_short)
  then show "process now stamp (Some (ls # others)) w h r = Inl TypeError"
    by (simp add: process_def)
next
  assume "length ls \<ge> 21"
  from analyzeHand_long [OF this] obtain g where "analyzeHand ls = Inr g" by blast
  then show "\<exists>g r'. process now stamp (Some (ls # others)) w h r = Inr (Some g, r')"
    by (simp add: process_def Let_def split: prod.splits)
qed

theorem process_missing_or_partial_witness:
  "(let lm = \<lparr> l_x = 0.5, l_y = 0.5, l_z = 0 \<rparr>; r = new_GestureRecognizer in
      length (replicate 20 lm) < 21
      \<and> process 1000 1000 (Some [replicate 20 lm]) 640 480 r = Inl TypeError
      \<and> length (replicate 21 lm) \<ge> 21
      \<and> (\<exists>g r'. process 1000 1000 (Some [replicate 21 lm]) 640 480 r = Inr (Some g, r'))
      \<and> process 1000 1000 (Some []) 640 480 r = Inr (None, r_emit NoHands (resetState r)))"
  using process_missing_or_partial
          [of 1000 1000 640 480 new_GestureRecognizer
              "replicate 20 \<lparr> l_x = 0.5, l_y = 0.5, l_z = 0 \<rparr>" "[]"]
        process_missing_or_partial
          [of 1000 1000 640 480 new_GestureRecognizer
              "replicate 21 \<lparr> l_x = 0.5, l_y = 0.5, l_z = 0 \<rparr>" "[]"]
  by (simp add: Let_def)

text \<open>
  C2 as stated fails: a first hand of 20 landmarks (the pinky tip is missing) makes
  process throw instead of returning \<open>null\<close>.
\<close>

theorem process_partial_hand_throws:
  "process 1000 1000 (Some [replicate 20 \<lparr> l_x = 0.5, l_y = 0.5, l_z = 0 \<rparr>]) 640 480
     new_GestureRecognizer = Inl TypeError
   \<and> (\<forall>r'. process 1000 1000 (Some [replicate 20 \<lparr> l_x = 0.5, l_y = 0.5, l_z = 0 \<rparr>]) 640 480
          new_GestureRecognizer \<noteq> Inr (None, r'))"
proof -
  have "getFingerStates (replicate 20 \<lparr> l_x = 0.5, l_y = 0.5, l_z = 0 \<rparr>) = Inl TypeError"
    by (simp add: getFingerStates_def isThumbExtended_def isExtended_def at_index_def Let_def)
  then show ?thesis by (simp add: process_def analyzeHand_def)
qed

section \<open>Shape tools: the commit threshold\<close>

lemma screenToCanvas_transform:
  "transform c' = transform c \<Longrightarrow> screenToCanvas c' = screenToCanvas c"
  by (rule ext, rule ext) (simp add: screenToCanvas_def)

lemma screenToCanvas_canvasToScreen:
  "t_scale (transform c) \<noteq> 0 \<Longrightarrow>
   screenToCanvas c (p_x (canvasToScreen c x y)) (p_y (canvasToScreen c x y))
   = \<lparr> p_x = x, p_y = y \<rparr>"
  by (simp add: screenToCanvas_def canvasToScreen_def)

lemma addElement_fields [simp]:
  "elements (addElement r c) = elements c @ [r]" "store (addElement r c) = store c"
  "selectedElement (addElement r c) = selectedElement c"
  "transform (addElement r c) = transform c"
  by (simp_all add: addElement_def)

lemma AreaTool_onEnd_elements:
  assumes "previewElement t = Some r"
  shows "elements (snd (AreaTool_onEnd sx sy (t, c)))
         = (if e_width (store c ! r) > 5 \<and> e_height (store c ! r) > 5
            then elements c @ [r] else elements c)"
    and "\<not> (e_width (store c ! r) > 5 \<and> e_height (store c ! r) > 5)
         \<Longrightarrow> snd (AreaTool_onEnd sx sy (t, c)) = c"
    and "fst (AreaTool_onEnd sx sy (t, c)) = Tool_onEnd t"
  using assms by (auto simp: AreaTool_onEnd_def Let_def)

lemma LineTool_onEnd_elements:
  assumes "previewElement t = Some r"
  shows "elements (snd (LineTool_onEnd sx sy (t, c)))
         = (if line_length (store c ! r) > 10 then elements c @ [r] else elements c)"
    and "\<not> line_length (store c ! r) > 10 \<Longrightarrow> snd (LineTool_onEnd sx sy (t, c)) = c"
  using assms by (auto simp: LineTool_onEnd_def Let_def)

subsection \<open>The preview during a rectangle or circle drag\<close>

lemma RectangleTool_onStart_state:
  fixes t :: tool and c :: canvas and x y :: real and gid :: string
  defines "a \<equiv> screenToCanvas c x y"
  defines "s \<equiv> RectangleTool_onStart gid x y (t, c)"
  shows "drag_in_progress c a a s"
    and "shape (store (snd s) ! length (store c)) = Rectangle 0"
    and "getBounds (store (snd s) ! length (store c)) = getBoundsOf a a"
  unfolding a_def s_def
  by (simp_all add: RectangleTool_onStart_def Tool_onStart_def the_point_def new_object_def
        Let_def getStyle_def new_Rectangle_def new_Element_def no_options_def getBounds_def
        getBoundsOf_def drag_in_progress_def)

lemma CircleTool_onStart_state:
  fixes t :: tool and c :: canvas and x y :: real and gid :: string
  defines "a \<equiv> screenToCanvas c x y"
  defines "s \<equiv> CircleTool_onStart gid x y (t, c)"
  shows "drag_in_progress c a a s"
    and "shape (store (snd s) ! length (store c)) = Circle"
    and "getBounds (store (snd s) ! length (store c)) = getBoundsOf a a"
  unfolding a_def s_def
  by (simp_all add: CircleTool_onStart_def Tool_onStart_def the_point_def new_object_def
        Let_def getStyle_def new_Circle_def new_Element_def no_options_def getBounds_def
        getBoundsOf_def drag_in_progress_def)

lemma AreaTool_onMove_state:
  fixes c :: canvas and x y :: real
  assumes "drag_in_progress c a cur s"
  defines "b \<equiv> screenToCanvas c x y"
  defines "s' \<equiv> AreaTool_onMove x y s"
  shows "drag_in_progress c a b s'"
    and "shape (store (snd s') ! length (store c)) = shape (store (snd s) ! length (store c))"
    and "getBounds (store (snd s') ! length (store c)) = getBoundsOf a b"
proof -
  obtain t1 c1 where s: "s = (t1, c1)" by (cases s)
  from assms(1) have d: "startPoint t1 = Some a" "previewElement t1 = Some (length (store c))"
    "length (store c1) = Suc (length (store c))" "take (length (store c)) (store c1) = store c"
    "transform c1 = transform c" "elements c1 = elements c"
    "selectedElement c1 = selectedElement c" "history c1 = history c"
    "historyIndex c1 = historyIndex c"
    by (simp_all add: drag_in_progress_def s)
  have sc: "screenToCanvas c1 x y = b"
    unfolding b_def by (simp add: screenToCanvas_def d(5))
  have s': "s' = (t1 \<lparr> currentPoint := Some b \<rparr>,
                  requestRender
                    (update_object (length (store c))
                       (\<lambda>e. e \<lparr> e_x := b_x (getBoundsOf a b), e_y := b_y (getBoundsOf a b),
                                 e_width := b_width (getBoundsOf a b),
                                 e_height := b_height (getBoundsOf a b) \<rparr>) c1))"
    unfolding s'_def s
    by (simp add: AreaTool_onMove_def Tool_onMove_def sc d(1,2) the_point_def Let_def)
  show "drag_in_progress c a b s'"
    by (simp add: s' drag_in_progress_def d update_object_def)
  show "shape (store (snd s') ! length (store c)) = shape (store (snd s) ! length (store c))"
    by (simp add: s' s update_object_def d(3))
  show "getBounds (store (snd s') ! length (store c)) = getBoundsOf a b"
    by (simp add: s' update_object_def d(3) getBounds_def)
qed

lemma area_moves_state:
  assumes "drag_in_progress c a cur s"
  shows "(\<exists>cur'. drag_in_progress c a cur' (area_moves ms s))
         \<and> shape (store (snd (area_moves ms s)) ! length (store c))
             = shape (store (snd s) ! length (store c))"
  using assms
proof (induction ms arbitrary: s cur)
  case Nil
  then show ?case by (auto simp: area_moves_def)
next
  case (Cons m ms)
  let ?s1 = "AreaTool_onMove (fst m) (snd m) s"
  have st: "area_moves (m # ms) s = area_moves ms ?s1"
    by (simp add: area_moves_def)
  have d1: "drag_in_progress c a (screenToCanvas c (fst m) (snd m)) ?s1"
    using Cons.prems by (rule AreaTool_onMove_state(1))
  have sh: "shape (store (snd ?s1) ! length (store c)) = shape (store (snd s) ! length (store c))"
    using Cons.prems by (rule AreaTool_onMove_state(2))
  from Cons.IH [OF d1] sh show ?case unfolding st by simp
qed

text \<open>After the moves of a drag that ends at \<open>B\<close>, the preview spans from \<open>a\<close> to \<open>b\<close>.\<close>

lemma area_drag_preview:
  fixes c :: canvas and B :: "real \<times> real" and ms :: "(real \<times> real) list"
  assumes "drag_in_progress c a a s0"
  defines "b \<equiv> screenToCanvas c (fst B) (snd B)"
  defines "s \<equiv> area_moves (ms @ [B]) s0"
  shows "drag_in_progress c a b s"
    and "shape (store (snd s) ! length (store c)) = shape (store (snd s0) ! length (store c))"
    and "getBounds (store (snd s) ! length (store c)) = getBoundsOf a b"
proof -
  have s: "s = AreaTool_onMove (fst B) (snd B) (area_moves ms s0)"
    by (simp add: s_def area_moves_def)
  from area_moves_state [OF assms(1), of ms] obtain cur'
    where d: "drag_in_progress c a cur' (area_moves ms s0)"
      and sh: "shape (store (snd (area_moves ms s0)) ! length (store c))
               = shape (store (snd s0) ! length (store c))" by blast
  show "drag_in_progress c a b s" unfolding s b_def using d by (rule AreaTool_onMove_state(1))
  show "getBounds (store (snd s) ! length (store c)) = getBoundsOf a b"
    unfolding s b_def using d by (rule AreaTool_onMove_state(3))
  show "shape (store (snd s) ! length (store c)) = shape (store (snd s0) ! length (store c))"
    unfolding s
    using AreaTool_onMove_state(2) [OF d, of "fst B" "snd B"] sh by simp
qed

text \<open>What onEnd makes of that state.\<close>

lemma area_drag_end:
  fixes c :: canvas and x y :: real
  assumes d: "drag_in_progress c a b s"
      and g: "getBounds (store (snd s) ! length (store c)) = getBoundsOf a b"
  defines "big \<equiv> \<bar>p_x b - p_x a\<bar> > 5 \<and> \<bar>p_y b - p_y a\<bar> > 5"
  defines "c' \<equiv> snd (AreaTool_onEnd x y s)"
  shows "(elements c' = elements c @ [length (store c)]) = big"
    and "store c' = store (snd s)"
    and "\<not> big \<Longrightarrow> elements c' = elements c \<and> selectedElement c' = selectedElement c
                    \<and> history c' = history c \<and> historyIndex c' = historyIndex c
                    \<and> take (length (store c)) (store c') = store c"
    and "previewElement (fst (AreaTool_onEnd x y s)) = None"
proof -
  obtain t1 c1 where s: "s = (t1, c1)" by (cases s)
  from d have p: "previewElement t1 = Some (length (store c))" "elements c1 = elements c"
    "selectedElement c1 = selectedElement c" "history c1 = history c"
    "historyIndex c1 = historyIndex c" "take (length (store c)) (store c1) = store c"
    by (simp_all add: drag_in_progress_def s)
  from g have w: "e_width (store c1 ! length (store c)) = \<bar>p_x b - p_x a\<bar>"
                 "e_height (store c1 ! length (store c)) = \<bar>p_y b - p_y a\<bar>"
    by (simp_all add: s getBounds_def getBoundsOf_def)
  have e: "c' = (if big then addElement (length (store c)) c1 else c1)"
    unfolding c'_def s big_def by (simp add: AreaTool_onEnd_def Let_def p(1) w)
  show "(elements c' = elements c @ [length (store c)]) = big" by (simp add: e p(2))
  show "store c' = store (snd s)" by (simp add: e s)
  show "\<not> big \<Longrightarrow> elements c' = elements c \<and> selectedElement c' = selectedElement c
                    \<and> history c' = history c \<and> historyIndex c' = historyIndex c
                    \<and> take (length (store c)) (store c') = store c"
    by (simp add: e p)
  show "previewElement (fst (AreaTool_onEnd x y s)) = None"
    by (simp add: s AreaTool_onEnd_def Let_def Tool_onEnd_def)
qed

subsection \<open>The preview during a line or arrow drag\<close>

lemma LineTool_onStart_state:
  fixes t :: tool and c :: canvas and x y :: real and gid :: string
  defines "a \<equiv> screenToCanvas c x y"
  defines "s \<equiv> LineTool_onStart gid x y (t, c)"
  shows "drag_in_progress c a a s"
    and "shape (store (snd s) ! length (store c)) = Line (p_x a) (p_y a) (p_x a) (p_y a)"
  unfolding a_def s_def
  by (simp_all add: LineTool_onStart_def Tool_onStart_def the_point_def new_object_def
        Let_def getStyle_def new_Line_def new_Element_def no_options_def line_updateBounds_def
        drag_in_progress_def)

lemma ArrowTool_onStart_state:
  fixes t :: tool and c :: canvas and x y :: real and gid :: string
  defines "a \<equiv> screenToCanvas c x y"
  defines "s \<equiv> ArrowTool_onStart gid x y (t, c)"
  shows "drag_in_progress c a a s"
    and "shape (store (snd s) ! length (store c))
         = Arrow (p_x a) (p_y a) (p_x a) (p_y a) 15 (pi / 6)"
  unfolding a_def s_def
  by (simp_all add: ArrowTool_onStart_def Tool_onStart_def the_point_def new_object_def
        Let_def getStyle_def new_Arrow_def new_Line_def new_Element_def no_options_def
        line_updateBounds_def drag_in_progress_def)

lemma set_end_set_end: "set_end x y (set_end x' y' sh) = set_end x y sh"
  by (cases sh) simp_all

lemma LineTool_onMove_state:
  fixes c :: canvas and x y :: real
  assumes "drag_in_progress c a cur s"
  defines "b \<equiv> screenToCanvas c x y"
  defines "s' \<equiv> LineTool_onMove x y s"
  shows "drag_in_progress c a b s'"
    and "shape (store (snd s') ! length (store c))
         = set_end (p_x b) (p_y b) (shape (store (snd s) ! length (store c)))"
proof -
  obtain t1 c1 where s: "s = (t1, c1)" by (cases s)
  from assms(1) have d: "startPoint t1 = Some a" "previewElement t1 = Some (length (store c))"
    "length (store c1) = Suc (length (store c))" "take (length (store c)) (store c1) = store c"
    "transform c1 = transform c" "elements c1 = elements c"
    "selectedElement c1 = selectedElement c" "history c1 = history c"
    "historyIndex c1 = historyIndex c"
    by (simp_all add: drag_in_progress_def s)
  have sc: "screenToCanvas c1 x y = b"
    unfolding b_def by (simp add: screenToCanvas_def d(5))
  have s': "s' = (t1 \<lparr> currentPoint := Some b \<rparr>,
                  requestRender
                    (update_object (length (store c))
                       (\<lambda>e. line_updateBounds
                               (e \<lparr> shape := set_end (p_x b) (p_y b) (shape e) \<rparr>)) c1))"
    unfolding s'_def s
    by (simp add: LineTool_onMove_def Tool_onMove_def sc d(2) the_point_def Let_def)
  show "drag_in_progress c a b s'"
    by (simp add: s' drag_in_progress_def d update_object_def)
  show "shape (store (snd s') ! length (store c))
         = set_end (p_x b) (p_y b) (shape (store (snd s) ! length (store c)))"
    by (simp add: s' s update_object_def d(3) line_updateBounds_def)
qed

lemma line_moves_state:
  assumes "drag_in_progress c a cur s"
  shows "(\<exists>cur'. drag_in_progress c a cur' (line_moves ms s))
         \<and> (\<forall>x y. set_end x y (shape (store (snd (line_moves ms s)) ! length (store c)))
                  = set_end x y (shape (store (snd s) ! length (store c))))"
  using assms
proof (induction ms arbitrary: s cur)
  case Nil
  then show ?case by (auto simp: line_moves_def)
next
  case (Cons m ms)
  let ?s1 = "LineTool_onMove (fst m) (snd m) s"
  have st: "line_moves (m # ms) s = line_moves ms ?s1"
    by (simp add: line_moves_def)
  have d1: "drag_in_progress c a (screenToCanvas c (fst m) (snd m)) ?s1"
    using Cons.prems by (rule LineTool_onMove_state(1))
  have sh: "set_end x y (shape (store (snd ?s1) ! length (store c)))
            = set_end x y (shape (store (snd s) ! length (store c)))" for x y
    unfolding LineTool_onMove_state(2) [OF Cons.prems] by (rule set_end_set_end)
  from Cons.IH [OF d1] sh show ?case unfolding st by simp
qed

lemma line_drag_preview:
  fixes c :: canvas and B :: "real \<times> real" and ms :: "(real \<times> real) list"
  assumes "drag_in_progress c a a s0"
  defines "b \<equiv> screenToCanvas c (fst B) (snd B)"
  defines "s \<equiv> line_moves (ms @ [B]) s0"
  shows "drag_in_progress c a b s"
    and "shape (store (snd s) ! length (store c))
         = set_end (p_x b) (p_y b) (shape (store (snd s0) ! length (store c)))"
proof -
  have s: "s = LineTool_onMove (fst B) (snd B) (line_moves ms s0)"
    by (simp add: s_def line_moves_def)
  from line_moves_state [OF assms(1), of ms] obtain cur'
    where d: "drag_in_progress c a cur' (line_moves ms s0)"
      and sh: "\<And>x y. set_end x y (shape (store (snd (line_moves ms s0)) ! length (store c)))
                     = set_end x y (shape (store (snd s0) ! length (store c)))"
    by blast
  show "drag_in_progress c a b s" unfolding s b_def using d by (rule LineTool_onMove_state(1))
  show "shape (store (snd s) ! length (store c))
         = set_end (p_x b) (p_y b) (shape (store (snd s0) ! length (store c)))"
    unfolding s b_def LineTool_onMove_state(2) [OF d] by (rule sh)
qed

lemma line_drag_end:
  fixes c :: canvas and x y :: real
  assumes d: "drag_in_progress c a b s"
      and g: "startX (shape (store (snd s) ! length (store c))) = p_x a"
             "startY (shape (store (snd s) ! length (store c))) = p_y a"
             "endX (shape (store (snd s) ! length (store c))) = p_x b"
             "endY (shape (store (snd s) ! length (store c))) = p_y b"
  defines "long \<equiv> distance a b > 10"
  defines "c' \<equiv> snd (LineTool_onEnd x y s)"
  shows "(elements c' = elements c @ [length (store c)]) = long"
    and "store c' = store (snd s)"
    and "\<not> long \<Longrightarrow> elements c' = elements c \<and> selectedElement c' = selectedElement c
                    \<and> history c' = history c \<and> historyIndex c' = historyIndex c
                    \<and> take (length (store c)) (store c') = store c"
    and "previewElement (fst (LineTool_onEnd x y s)) = None"
proof -
  obtain t1 c1 where s: "s = (t1, c1)" by (cases s)
  from d have p: "previewElement t1 = Some (length (store c))" "elements c1 = elements c"
    "selectedElement c1 = selectedElement c" "history c1 = history c"
    "historyIndex c1 = historyIndex c" "take (length (store c)) (store c1) = store c"
    by (simp_all add: drag_in_progress_def s)
  have l: "line_length (store c1 ! length (store c)) = distance a b"
    using g by (simp add: s line_length_def distance_def)
  have e: "c' = (if long then addElement (length (store c)) c1 else c1)"
    unfolding c'_def s long_def by (simp add: LineTool_onEnd_def Let_def p(1) l)
  show "(elements c' = elements c @ [length (store c)]) = long" by (simp add: e p(2))
  show "store c' = store (snd s)" by (simp add: e s)
  show "\<not> long \<Longrightarrow> elements c' = elements c \<and> selectedElement c' = selectedElement c
                    \<and> history c' = history c \<and> historyIndex c' = historyIndex c
                    \<and> take (length (store c)) (store c') = store c"
    by (simp add: e p)
  show "previewElement (fst (LineTool_onEnd x y s)) = None"
    by (simp add: s LineTool_onEnd_def Let_def Tool_onEnd_def)
qed

subsection \<open>The four drags\<close>

lemma rectangle_drag_result:
  fixes t :: tool and c :: canvas and A B :: "real \<times> real" and gid :: string
    and ms :: "(real \<times> real) list"
  defines "a \<equiv> screenToCanvas c (fst A) (snd A)"
  defines "b \<equiv> screenToCanvas c (fst B) (snd B)"
  defines "c' \<equiv> snd (rectangle_drag gid A ms B (t, c))"
  shows "(elements c' = elements c @ [length (store c)])
         = (\<bar>p_x b - p_x a\<bar> > 5 \<and> \<bar>p_y b - p_y a\<bar> > 5)"
    and "e_type (store c' ! length (store c)) = ''rectangle''"
    and "getBounds (store c' ! length (store c)) = getBoundsOf a b"
    and "\<not> (\<bar>p_x b - p_x a\<bar> > 5 \<and> \<bar>p_y b - p_y a\<bar> > 5) \<Longrightarrow> scene_unchanged c c'"
proof -
  let ?s0 = "RectangleTool_onStart gid (fst A) (snd A) (t, c)"
  let ?s = "area_moves (ms @ [B]) ?s0"
  note st = RectangleTool_onStart_state [where c = c and x = "fst A" and y = "snd A" and gid = gid and t = t,
              folded a_def]
  note pv = area_drag_preview [OF st(1), where B = B and ms = ms, folded b_def]
  note en = area_drag_end [OF pv(1) pv(3), where x = "fst B" and y = "snd B"]
  have c': "c' = snd (AreaTool_onEnd (fst B) (snd B) ?s)"
    by (simp add: c'_def rectangle_drag_def)
  show "(elements c' = elements c @ [length (store c)])
         = (\<bar>p_x b - p_x a\<bar> > 5 \<and> \<bar>p_y b - p_y a\<bar> > 5)"
    unfolding c' by (rule en(1))
  show "e_type (store c' ! length (store c)) = ''rectangle''"
    unfolding c' en(2) by (simp add: e_type_def pv(2) st(2))
  show "getBounds (store c' ! length (store c)) = getBoundsOf a b"
    unfolding c' en(2) by (rule pv(3))
  show "\<not> (\<bar>p_x b - p_x a\<bar> > 5 \<and> \<bar>p_y b - p_y a\<bar> > 5) \<Longrightarrow> scene_unchanged c c'"
    unfolding c' scene_unchanged_def using en(3) by blast
qed

lemma circle_drag_result:
  fixes t :: tool and c :: canvas and A B :: "real \<times> real" and gid :: string
    and ms :: "(real \<times> real) list"
  defines "a \<equiv> screenToCanvas c (fst A) (snd A)"
  defines "b \<equiv> screenToCanvas c (fst B) (snd B)"
  defines "c' \<equiv> snd (circle_drag gid A ms B (t, c))"
  shows "(elements c' = elements c @ [length (store c)])
         = (\<bar>p_x b - p_x a\<bar> > 5 \<and> \<bar>p_y b - p_y a\<bar> > 5)"
    and "e_type (store c' ! length (store c)) = ''circle''"
    and "getBounds (store c' ! length (store c)) = getBoundsOf a b"
    and "\<not> (\<bar>p_x b - p_x a\<bar> > 5 \<and> \<bar>p_y b - p_y a\<bar> > 5) \<Longrightarrow> scene_unchanged c c'"
proof -
  let ?s0 = "CircleTool_onStart gid (fst A) (snd A) (t, c)"
  let ?s = "area_moves (ms @ [B]) ?s0"
  note st = CircleTool_onStart_state [where c = c and x = "fst A" and y = "snd A" and gid = gid and t = t,
              folded a_def]
  note pv = area_drag_preview [OF st(1), where B = B and ms = ms, folded b_def]
  note en = area_drag_end [OF pv(1) pv(3), where x = "fst B" and y = "snd B"]
  have c': "c' = snd (AreaTool_onEnd (fst B) (snd B) ?s)"
    by (simp add: c'_def circle_drag_def)
  show "(elements c' = elements c @ [length (store c)])
         = (\<bar>p_x b - p_x a\<bar> > 5 \<and> \<bar>p_y b - p_y a\<bar> > 5)"
    unfolding c' by (rule en(1))
  show "e_type (store c' ! length (store c)) = ''circle''"
    unfolding c' en(2) by (simp add: e_type_def pv(2) st(2))
  show "getBounds (store c' ! length (store c)) = getBoundsOf a b"
    unfolding c' en(2) by (rule pv(3))
  show "\<not> (\<bar>p_x b - p_x a\<bar> > 5 \<and> \<bar>p_y b - p_y a\<bar> > 5) \<Longrightarrow> scene_unchanged c c'"
    unfolding c' scene_unchanged_def using en(3) by blast
qed

lemma line_drag_result:
  fixes t :: tool and c :: canvas and A B :: "real \<times> real" and gid :: string
    and ms :: "(real \<times> real) list"
  defines "a \<equiv> screenToCanvas c (fst A) (snd A)"
  defines "b \<equiv> screenToCanvas c (fst B) (snd B)"
  defines "c' \<equiv> snd (line_drag gid A ms B (t, c))"
  shows "(elements c' = elements c @ [length (store c)]) = (distance a b > 10)"
    and "shape (store c' ! length (store c)) = Line (p_x a) (p_y a) (p_x b) (p_y b)"
    and "\<not> distance a b > 10 \<Longrightarrow> scene_unchanged c c'"
proof -
  let ?s0 = "LineTool_onStart gid (fst A) (snd A) (t, c)"
  let ?s = "line_moves (ms @ [B]) ?s0"
  note st = LineTool_onStart_state [where c = c and x = "fst A" and y = "snd A" and gid = gid and t = t,
              folded a_def]
  note pv = line_drag_preview [OF st(1), where B = B and ms = ms, folded b_def]
  have sh: "shape (store (snd ?s) ! length (store c)) = Line (p_x a) (p_y a) (p_x b) (p_y b)"
    unfolding pv(2) st(2) by simp
  have g: "startX (shape (store (snd ?s) ! length (store c))) = p_x a"
          "startY (shape (store (snd ?s) ! length (store c))) = p_y a"
          "endX (shape (store (snd ?s) ! length (store c))) = p_x b"
          "endY (shape (store (snd ?s) ! length (store c))) = p_y b"
    by (simp_all add: sh)
  note en = line_drag_end [OF pv(1) g, where x = "fst B" and y = "snd B"]
  have c': "c' = snd (LineTool_onEnd (fst B) (snd B) ?s)"
    by (simp add: c'_def line_drag_def)
  show "(elements c' = elements c @ [length (store c)]) = (distance a b > 10)"
    unfolding c' by (rule en(1))
  show "shape (store c' ! length (store c)) = Line (p_x a) (p_y a) (p_x b) (p_y b)"
    unfolding c' en(2) by (rule sh)
  show "\<not> distance a b > 10 \<Longrightarrow> scene_unchanged c c'"
    unfolding c' scene_unchanged_def using en(3) by blast
qed

lemma arrow_drag_result:
  fixes t :: tool and c :: canvas and A B :: "real \<times> real" and gid :: string
    and ms :: "(real \<times> real) list"
  defines "a \<equiv> screenToCanvas c (fst A) (snd A)"
  defines "b \<equiv> screenToCanvas c (fst B) (snd B)"
  defines "c' \<equiv> snd (arrow_drag gid A ms B (t, c))"
  shows "(elements c' = elements c @ [length (store c)]) = (distance a b > 10)"
    and "shape (store c' ! length (store c))
         = Arrow (p_x a) (p_y a) (p_x b) (p_y b) 15 (pi / 6)"
    and "\<not> distance a b > 10 \<Longrightarrow> scene_unchanged c c'"
proof -
  let ?s0 = "ArrowTool_onStart gid (fst A) (snd A) (t, c)"
  let ?s = "line_moves (ms @ [B]) ?s0"
  note st = ArrowTool_onStart_state [where c = c and x = "fst A" and y = "snd A" and gid = gid and t = t,
              folded a_def]
  note pv = line_drag_preview [OF st(1), where B = B and ms = ms, folded b_def]
  have sh: "shape (store (snd ?s) ! length (store c))
            = Arrow (p_x a) (p_y a) (p_x b) (p_y b) 15 (pi / 6)"
    unfolding pv(2) st(2) by simp
  have g: "startX (shape (store (snd ?s) ! length (store c))) = p_x a"
          "startY (shape (store (snd ?s) ! length (store c))) = p_y a"
          "endX (shape (store (snd ?s) ! length (store c))) = p_x b"
          "endY (shape (store (snd ?s) ! length (store c))) = p_y b"
    by (simp_all add: sh)
  note en = line_drag_end [OF pv(1) g, where x = "fst B" and y = "snd B"]
  have c': "c' = snd (LineTool_onEnd (fst B) (snd B) ?s)"
    by (simp add: c'_def arrow_drag_def)
  show "(elements c' = elements c @ [length (store c)]) = (distance a b > 10)"
    unfolding c' by (rule en(1))
  show "shape (store c' ! length (store c))
         = Arrow (p_x a) (p_y a) (p_x b) (p_y b) 15 (pi / 6)"
    unfolding c' en(2) by (rule sh)
  show "\<not> distance a b > 10 \<Longrightarrow> scene_unchanged c c'"
    unfolding c' scene_unchanged_def using en(3) by blast
qed

text \<open>
  A tap: onStart followed by onEnd with no onMove between them leaves a preview of
  size zero, which no tool commits.
\<close>

lemma tap_commits_nothing:
  fixes t :: tool and c :: canvas
  shows "scene_unchanged c (snd (AreaTool_onEnd x' y' (RectangleTool_onStart gid x y (t, c))))"
    and "scene_unchanged c (snd (AreaTool_onEnd x' y' (CircleTool_onStart gid x y (t, c))))"
    and "scene_unchanged c (snd (LineTool_onEnd x' y' (LineTool_onStart gid x y (t, c))))"
    and "scene_unchanged c (snd (LineTool_onEnd x' y' (ArrowTool_onStart gid x y (t, c))))"
proof -
  let ?a = "screenToCanvas c x y"
  note r = RectangleTool_onStart_state [where c = c and x = x and y = y and gid = gid and t = t]
  from area_drag_end(3) [OF r(1) r(3), where x = x' and y = y']
  show "scene_unchanged c (snd (AreaTool_onEnd x' y' (RectangleTool_onStart gid x y (t, c))))"
    by (simp add: scene_unchanged_def)
  note k = CircleTool_onStart_state [where c = c and x = x and y = y and gid = gid and t = t]
  from area_drag_end(3) [OF k(1) k(3), where x = x' and y = y']
  show "scene_unchanged c (snd (AreaTool_onEnd x' y' (CircleTool_onStart gid x y (t, c))))"
    by (simp add: scene_unchanged_def)
  have z: "\<not> distance ?a ?a > 10" by (simp add: distance_def)
  note l = LineTool_onStart_state [where c = c and x = x and y = y and gid = gid and t = t]
  from line_drag_end(3) [OF l(1), where x = x' and y = y'] z
  show "scene_unchanged c (snd (LineTool_onEnd x' y' (LineTool_onStart gid x y (t, c))))"
    by (simp add: scene_unchanged_def l(2))
  note w = ArrowTool_onStart_state [where c = c and x = x and y = y and gid = gid and t = t]
  from line_drag_end(3) [OF w(1), where x = x' and y = y'] z
  show "scene_unchanged c (snd (LineTool_onEnd x' y' (ArrowTool_onStart gid x y (t, c))))"
    by (simp add: scene_unchanged_def w(2))
qed

text \<open>
  C7. On a canvas whose scale is not zero, take any drag of a shape tool: onStart at
  the screen point A, onMove at any intermediate points and then at B, onEnd at B; let
  a and b be the canvas points of A and B. The rectangle tool and the circle tool add
  the preview (a rectangle, respectively a circle, with the bounding box of a and b) to
  the scene if and only if the box is wider than 5 and higher than 5; the line tool and
  the arrow tool add the preview (from a to b) if and only if the distance from a to b
  exceeds 10. When the preview is not added, and after a tap without any onMove, the
  scene is unchanged. A rectangle dragged from the canvas point (0,0) to (3,3) commits
  nothing and leaves the scene unchanged; dragged to (10,10) it appends one rectangle
  with bounds {x:0, y:0, width:10, height:10}.
\<close>

theorem shape_commit_threshold:
  fixes t :: tool and c :: canvas
  assumes "t_scale (transform c) \<noteq> 0"
  shows
  "(let a = screenToCanvas c Ax Ay; b = screenToCanvas c Bx By; n = length (store c);
        big = (\<bar>p_x b - p_x a\<bar> > 5 \<and> \<bar>p_y b - p_y a\<bar> > 5);
        long = (distance a b > 10)
    in (let c' = snd (rectangle_drag gid (Ax, Ay) ms (Bx, By) (t, c)) in
          ((elements c' = elements c @ [n]) = big)
          \<and> (big \<longrightarrow> e_type (store c' ! n) = ''rectangle''
                      \<and> getBounds (store c' ! n) = getBoundsOf a b)
          \<and> (\<not> big \<longrightarrow> scene_unchanged c c'))
       \<and> (let c' = snd (circle_drag gid (Ax, Ay) ms (Bx, By) (t, c)) in
          ((elements c' = elements c @ [n]) = big)
          \<and> (big \<longrightarrow> e_type (store c' ! n) = ''circle''
                      \<and> getBounds (store c' ! n) = getBoundsOf a b)
          \<and> (\<not> big \<longrightarrow> scene_unchanged c c'))
       \<and> (let c' = snd (line_drag gid (Ax, Ay) ms (Bx, By) (t, c)) in
          ((elements c' = elements c @ [n]) = long)
          \<and> (long \<longrightarrow> shape (store c' ! n) = Line (p_x a) (p_y a) (p_x b) (p_y b))
          \<and> (\<not> long \<longrightarrow> scene_unchanged c c'))
       \<and> (let c' = snd (arrow_drag gid (Ax, Ay) ms (Bx, By) (t, c)) in
          ((elements c' = elements c @ [n]) = long)
          \<and> (long \<longrightarrow> shape (store c' ! n)
                         = Arrow (p_x a) (p_y a) (p_x b) (p_y b) 15 (pi / 6))
          \<and> (\<not> long \<longrightarrow> scene_unchanged c c')))
   \<and> scene_unchanged c (snd (AreaTool_onEnd Bx By (RectangleTool_onStart gid Ax Ay (t, c))))
   \<and> scene_unchanged c (snd (AreaTool_onEnd Bx By (CircleTool_onStart gid Ax Ay (t, c))))
   \<and> scene_unchanged c (snd (LineTool_onEnd Bx By (LineTool_onStart gid Ax Ay (t, c))))
   \<and> scene_unchanged c (snd (LineTool_onEnd Bx By (ArrowTool_onStart gid Ax Ay (t, c))))
   \<and> (let A0 = canvasToScreen c 0 0; B3 = canvasToScreen c 3 3;
           c' = snd (rectangle_drag gid (p_x A0, p_y A0) ms (p_x B3, p_y B3) (t, c))
       in scene_unchanged c c')
   \<and> (let A0 = canvasToScreen c 0 0; B10 = canvasToScreen c 10 10;
           c' = snd (rectangle_drag gid (p_x A0, p_y A0) ms (p_x B10, p_y B10) (t, c))
       in elements c' = elements c @ [length (store c)]
          \<and> e_type (store c' ! length (store c)) = ''rectangle''
          \<and> getBounds (store c' ! length (store c))
              = \<lparr> b_x = 0, b_y = 0, b_width = 10, b_height = 10 \<rparr>)"
proof -
  note r = rectangle_drag_result [where gid = gid and A = "(Ax, Ay)" and ms = ms and B = "(Bx, By)"
             and t = t and c = c, simplified]
  note k = circle_drag_result [where gid = gid and A = "(Ax, Ay)" and ms = ms and B = "(Bx, By)"
             and t = t and c = c, simplified]
  note l = line_drag_result [where gid = gid and A = "(Ax, Ay)" and ms = ms and B = "(Bx, By)"
             and t = t and c = c, simplified]
  note w = arrow_drag_result [where gid = gid and A = "(Ax, Ay)" and ms = ms and B = "(Bx, By)"
             and t = t and c = c, simplified]
  have four:
    "let a = screenToCanvas c Ax Ay; b = screenToCanvas c Bx By; n = length (store c);
        big = (\<bar>p_x b - p_x a\<bar> > 5 \<and> \<bar>p_y b - p_y a\<bar> > 5);
        long = (distance a b > 10)
    in (let c' = snd (rectangle_drag gid (Ax, Ay) ms (Bx, By) (t, c)) in
          ((elements c' = elements c @ [n]) = big)
          \<and> (big \<longrightarrow> e_type (store c' ! n) = ''rectangle''
                      \<and> getBounds (store c' ! n) = getBoundsOf a b)
          \<and> (\<not> big \<longrightarrow> scene_unchanged c c'))
       \<and> (let c' = snd (circle_drag gid (Ax, Ay) ms (Bx, By) (t, c)) in
          ((elements c' = elements c @ [n]) = big)
          \<and> (big \<longrightarrow> e_type (store c' ! n) = ''circle''
                      \<and> getBounds (store c' ! n) = getBoundsOf a b)
          \<and> (\<not> big \<longrightarrow> scene_unchanged c c'))
       \<and> (let c' = snd (line_drag gid (Ax, Ay) ms (Bx, By) (t, c)) in
          ((elements c' = elements c @ [n]) = long)
          \<and> (long \<longrightarrow> shape (store c' ! n) = Line (p_x a) (p_y a) (p_x b) (p_y b))
          \<and> (\<not> long \<longrightarrow> scene_unchanged c c'))
       \<and> (let c' = snd (arrow_drag gid (Ax, Ay) ms (Bx, By) (t, c)) in
          ((elements c' = elements c @ [n]) = long)
          \<and> (long \<longrightarrow> shape (store c' ! n)
                         = Arrow (p_x a) (p_y a) (p_x b) (p_y b) 15 (pi / 6))
          \<and> (\<not> long \<longrightarrow> scene_unchanged c c'))"
    unfolding Let_def using r k l w by blast
  note tp = tap_commits_nothing [where c = c and x' = Bx and y' = By and gid = gid
              and x = Ax and y = Ay and t = t]
  have a0: "screenToCanvas c (p_x (canvasToScreen c 0 0)) (p_y (canvasToScreen c 0 0))
            = \<lparr> p_x = 0, p_y = 0 \<rparr>"
    and b3: "screenToCanvas c (p_x (canvasToScreen c 3 3)) (p_y (canvasToScreen c 3 3))
            = \<lparr> p_x = 3, p_y = 3 \<rparr>"
    and b10: "screenToCanvas c (p_x (canvasToScreen c 10 10)) (p_y (canvasToScreen c 10 10))
            = \<lparr> p_x = 10, p_y = 10 \<rparr>"
    using assms by (simp_all add: screenToCanvas_canvasToScreen)
  note r3 = rectangle_drag_result
              [where gid = gid and ms = ms and t = t and c = c
                 and A = "(p_x (canvasToScreen c 0 0), p_y (canvasToScreen c 0 0))"
                 and B = "(p_x (canvasToScreen c 3 3), p_y (canvasToScreen c 3 3))",
               simplified, unfolded a0 b3]
  note r10 = rectangle_drag_result
              [where gid = gid and ms = ms and t = t and c = c
                 and A = "(p_x (canvasToScreen c 0 0), p_y (canvasToScreen c 0 0))"
                 and B = "(p_x (canvasToScreen c 10 10), p_y (canvasToScreen c 10 10))",
               simplified, unfolded a0 b10]
  have s3: "let A0 = canvasToScreen c 0 0; B3 = canvasToScreen c 3 3;
           c' = snd (rectangle_drag gid (p_x A0, p_y A0) ms (p_x B3, p_y B3) (t, c))
       in scene_unchanged c c'"
    unfolding Let_def using r3(4) by simp
  have s10: "let A0 = canvasToScreen c 0 0; B10 = canvasToScreen c 10 10;
           c' = snd (rectangle_drag gid (p_x A0, p_y A0) ms (p_x B10, p_y B10) (t, c))
       in elements c' = elements c @ [length (store c)]
          \<and> e_type (store c' ! length (store c)) = ''rectangle''
          \<and> getBounds (store c' ! length (store c))
              = \<lparr> b_x = 0, b_y = 0, b_width = 10, b_height = 10 \<rparr>"
    unfolding Let_def using r10(1,2,3) by (simp add: getBoundsOf_def)
  from four tp s3 s10 show ?thesis by blast
qed

lemma sqrt_100: "sqrt 100 = 10"
  using real_sqrt_abs [of 10] by simp

lemma distance_horizontal:
  "distance \<lparr> p_x = a, p_y = b \<rparr> \<lparr> p_x = a', p_y = b \<rparr> = \<bar>a' - a\<bar>"
  by (simp add: distance_def)

theorem shape_commit_threshold_witness:
  "t_scale (transform init_canvas) \<noteq> 0
   \<and> (let c' = snd (rectangle_drag ''g1'' (0, 0) [(2, 3)] (6, 8) (new_Tool, init_canvas)) in
        elements c' = [0] \<and> e_type (store c' ! 0) = ''rectangle''
        \<and> getBounds (store c' ! 0) = \<lparr> b_x = 0, b_y = 0, b_width = 6, b_height = 8 \<rparr>)
   \<and> (let c' = snd (circle_drag ''g1'' (0, 0) [(2, 3)] (6, 8) (new_Tool, init_canvas)) in
        elements c' = [0] \<and> e_type (store c' ! 0) = ''circle''
        \<and> getBounds (store c' ! 0) = \<lparr> b_x = 0, b_y = 0, b_width = 6, b_height = 8 \<rparr>)
   \<and> distance \<lparr> p_x = 0, p_y = 0 \<rparr> \<lparr> p_x = 6, p_y = 8 \<rparr> = 10
   \<and> scene_unchanged init_canvas
        (snd (line_drag ''g1'' (0, 0) [(2, 3)] (6, 8) (new_Tool, init_canvas)))
   \<and> scene_unchanged init_canvas
        (snd (arrow_drag ''g1'' (0, 0) [(2, 3)] (6, 8) (new_Tool, init_canvas)))
   \<and> scene_unchanged init_canvas
        (snd (rectangle_drag ''g1'' (0, 0) [] (20, 0) (new_Tool, init_canvas)))
   \<and> scene_unchanged init_canvas
        (snd (circle_drag ''g1'' (0, 0) [] (20, 0) (new_Tool, init_canvas)))
   \<and> (let c' = snd (line_drag ''g1'' (0, 0) [] (20, 0) (new_Tool, init_canvas)) in
        elements c' = [0] \<and> shape (store c' ! 0) = Line 0 0 20 0)
   \<and> (let c' = snd (arrow_drag ''g1'' (0, 0) [] (20, 0) (new_Tool, init_canvas)) in
        elements c' = [0] \<and> shape (store c' ! 0) = Arrow 0 0 20 0 15 (pi / 6))
   \<and> scene_unchanged init_canvas
        (snd (rectangle_drag ''g1'' (0, 0) [] (3, 3) (new_Tool, init_canvas)))
   \<and> (let c' = snd (rectangle_drag ''g1'' (0, 0) [] (10, 10) (new_Tool, init_canvas)) in
        elements c' = [0]
        \<and> getBounds (store c' ! 0) = \<lparr> b_x = 0, b_y = 0, b_width = 10, b_height = 10 \<rparr>)"
proof -
  have sc: "t_scale (transform init_canvas) \<noteq> 0" by (simp add: init_canvas_def)
  have s2c: "screenToCanvas init_canvas x y = \<lparr> p_x = x, p_y = y \<rparr>" for x y
    by (simp add: screenToCanvas_def init_canvas_def)
  have c2s: "canvasToScreen init_canvas x y = \<lparr> p_x = x, p_y = y \<rparr>" for x y
    by (simp add: canvasToScreen_def init_canvas_def)
  have ic: "store init_canvas = []" "elements init_canvas = []"
    by (simp_all add: init_canvas_def)
  have d68: "distance \<lparr> p_x = 0, p_y = 0 \<rparr> \<lparr> p_x = 6, p_y = 8 \<rparr> = 10"
    by (simp add: distance_def sqrt_100)
  note T1 = shape_commit_threshold
              [OF sc, where Ax = 0 and Ay = 0 and Bx = 6 and By = 8 and ms = "[(2, 3)]"
                 and gid = "''g1''" and t = new_Tool,
               unfolded Let_def s2c c2s ic d68 distance_horizontal]
  note T2 = shape_commit_threshold
              [OF sc, where Ax = 0 and Ay = 0 and Bx = 20 and By = 0 and ms = "[]"
                 and gid = "''g1''" and t = new_Tool,
               unfolded Let_def s2c c2s ic d68 distance_horizontal]
  have r1: "let c' = snd (rectangle_drag ''g1'' (0, 0) [(2, 3)] (6, 8) (new_Tool, init_canvas)) in
        elements c' = [0] \<and> e_type (store c' ! 0) = ''rectangle''
        \<and> getBounds (store c' ! 0) = \<lparr> b_x = 0, b_y = 0, b_width = 6, b_height = 8 \<rparr>"
    unfolding Let_def using T1 by (simp add: getBoundsOf_def)
  have k1: "let c' = snd (circle_drag ''g1'' (0, 0) [(2, 3)] (6, 8) (new_Tool, init_canvas)) in
        elements c' = [0] \<and> e_type (store c' ! 0) = ''circle''
        \<and> getBounds (store c' ! 0) = \<lparr> b_x = 0, b_y = 0, b_width = 6, b_height = 8 \<rparr>"
    unfolding Let_def using T1 by (simp add: getBoundsOf_def)
  have l1: "scene_unchanged init_canvas
        (snd (line_drag ''g1'' (0, 0) [(2, 3)] (6, 8) (new_Tool, init_canvas)))"
    using T1 by simp
  have w1: "scene_unchanged init_canvas
        (snd (arrow_drag ''g1'' (0, 0) [(2, 3)] (6, 8) (new_Tool, init_canvas)))"
    using T1 by simp
  have r2: "scene_unchanged init_canvas
        (snd (rectangle_drag ''g1'' (0, 0) [] (20, 0) (new_Tool, init_canvas)))"
    using T2 by simp
  have k2: "scene_unchanged init_canvas
        (snd (circle_drag ''g1'' (0, 0) [] (20, 0) (new_Tool, init_canvas)))"
    using T2 by simp
  have l2: "let c' = snd (line_drag ''g1'' (0, 0) [] (20, 0) (new_Tool, init_canvas)) in
        elements c' = [0] \<and> shape (store c' ! 0) = Line 0 0 20 0"
    unfolding Let_def using T2 by simp
  have w2: "let c' = snd (arrow_drag ''g1'' (0, 0) [] (20, 0) (new_Tool, init_canvas)) in
        elements c' = [0] \<and> shape (store c' ! 0) = Arrow 0 0 20 0 15 (pi / 6)"
    unfolding Let_def using T2 by simp
  have s3: "scene_unchanged init_canvas
        (snd (rectangle_drag ''g1'' (0, 0) [] (3, 3) (new_Tool, init_canvas)))"
    using T2 by simp
  have s10: "let c' = snd (rectangle_drag ''g1'' (0, 0) [] (10, 10) (new_Tool, init_canvas)) in
        elements c' = [0]
        \<and> getBounds (store c' ! 0) = \<lparr> b_x = 0, b_y = 0, b_width = 10, b_height = 10 \<rparr>"
    unfolding Let_def using T2 by simp
  from sc r1 k1 d68 l1 w1 r2 k2 l2 w2 s3 s10 show ?thesis by blast
qed

section \<open>Select tool: dragging\<close>

text \<open>
  SelectTool.onMove never pushes a history snapshot, and onEnd pushes exactly one when
  an element was being dragged.
\<close>

lemma SelectTool_onMove_history:
  "history (snd (SelectTool_onMove sx sy tc)) = history (snd tc)
   \<and> historyIndex (snd (SelectTool_onMove sx sy tc)) = historyIndex (snd tc)"
  by (cases tc)
     (simp add: SelectTool_onMove_def Let_def update_object_def split: option.splits)

lemma SelectTool_onEnd_history:
  "draggedElement t = Some r \<Longrightarrow> snd (SelectTool_onEnd sx sy (t, c)) = saveHistory c"
  by (simp add: SelectTool_onEnd_def Let_def)

text \<open>
  For a rectangle or a circle, which are painted from \<open>x, y, width, height\<close>, writing
  \<open>x\<close> and \<open>y\<close> is the translation that \<open>move\<close> performs.
\<close>

lemma SelectTool_onMove_box:
  assumes "draggedElement t = Some r" and "startPoint t = Some sp" and "r < length (store c)"
      and "dragOffset t = \<lparr> p_x = p_x sp - x0, p_y = p_y sp - y0 \<rparr>"
      and "shape (store c ! r) = Circle \<or> (\<exists>cr. shape (store c ! r) = Rectangle cr)"
  shows "store (snd (SelectTool_onMove sx sy (t, c))) ! r
         = move (p_x (screenToCanvas c sx sy) - p_x sp) (p_y (screenToCanvas c sx sy) - p_y sp)
             ((store c ! r) \<lparr> e_x := x0, e_y := y0 \<rparr>)"
  using assms
  by (auto simp: SelectTool_onMove_def Tool_onMove_def Let_def update_object_def the_point_def)

text \<open>
  C8, the code at a failing input. The scene holds one line from (10,20) to (110,20).
  The select tool starts a drag on it at (60,20) and moves to (60,60), a delta of
  (0,40). onMove writes only \<open>x\<close> and \<open>y\<close> of the dragged element: its bounds origin
  moves to (10,60), but the endpoints from which the line is painted and hit-tested
  stay at (10,20) and (110,20). \<open>Line.move\<close> with the same delta moves them to (10,60)
  and (110,60); onMove does not call it.
\<close>

theorem select_drag_line_not_translated:
  "(let (r, c0) = new_object (new_Line ''l1''
                     (no_options \<lparr> o_startX := Some 10, o_startY := Some 20,
                                   o_endX := Some 110, o_endY := Some 20 \<rparr>)) init_canvas;
        c1 = addElement r c0;
        s1 = SelectTool_onStart 60 20 (new_SelectTool, c1);
        s2 = SelectTool_onMove 60 60 s1;
        before = store (snd s1) ! r;
        after = store (snd s2) ! r
    in draggedElement (fst s1) = Some r
       \<and> drawn_geometry before = DrawnSegment 10 20 110 20
       \<and> (e_x before, e_y before) = (10, 20)
       \<and> (e_x after, e_y after) = (10, 60)
       \<and> drawn_geometry after = DrawnSegment 10 20 110 20
       \<and> drawn_geometry (move 0 40 before) = DrawnSegment 10 60 110 60
       \<and> drawn_geometry after \<noteq> drawn_geometry (move 0 40 before))"
proof -
  let ?l = "new_Line ''l1'' (no_options \<lparr> o_startX := Some 10, o_startY := Some 20,
                                   o_endX := Some 110, o_endY := Some 20 \<rparr>)"
  let ?c1 = "addElement 0 (init_canvas \<lparr> store := [?l] \<rparr>)"
  have l: "shape ?l = Line 10 20 110 20" "e_x ?l = 10" "e_y ?l = 20"
    by (simp_all add: new_Line_def new_Element_def no_options_def line_updateBounds_def Let_def)
  have c1: "store ?c1 = [?l]" "elements ?c1 = [0]" "selectedElement ?c1 = None"
           "transform ?c1 = \<lparr> t_x = 0, t_y = 0, t_scale = 1 \<rparr>"
    by (simp_all add: init_canvas_def)
  have ic: "transform init_canvas = \<lparr> t_x = 0, t_y = 0, t_scale = 1 \<rparr>"
            "selectedElement init_canvas = None" "elements init_canvas = []"
    by (simp_all add: init_canvas_def)
  have hit: "getElementAt ?c1 60 20 = Some 0"
    by (simp add: getElementAt_def ic screenToCanvas_def l distanceToSegment_def distance_def
          Let_def)
  have sel: "store (selectElement (Some 0) ?c1) = [?l \<lparr> selected := True \<rparr>]"
    by (simp add: selectElement_def ic Let_def set_selected_def)
  have s1: "SelectTool_onStart 60 20 (new_SelectTool, ?c1)
            = (new_SelectTool \<lparr> startPoint := Some \<lparr> p_x = 60, p_y = 20 \<rparr>,
                                 currentPoint := Some \<lparr> p_x = 60, p_y = 20 \<rparr>,
                                 draggedElement := Some 0,
                                 dragOffset := \<lparr> p_x = 50, p_y = 0 \<rparr> \<rparr>,
               selectElement (Some 0) ?c1)"
    by (simp add: SelectTool_onStart_def hit Tool_onStart_def ic screenToCanvas_def Let_def
          the_point_def sel l)
  have tr: "transform (selectElement (Some 0) ?c1) = \<lparr> t_x = 0, t_y = 0, t_scale = 1 \<rparr>"
    by (simp add: selectElement_def ic Let_def set_selected_def)
  let ?t1 = "new_SelectTool \<lparr> startPoint := Some \<lparr> p_x = 60, p_y = 20 \<rparr>,
                                 currentPoint := Some \<lparr> p_x = 60, p_y = 20 \<rparr>,
                                 draggedElement := Some 0,
                                 dragOffset := \<lparr> p_x = 50, p_y = 0 \<rparr> \<rparr>"
  have s2: "store (snd (SelectTool_onMove 60 60 (?t1, selectElement (Some 0) ?c1)))
            = [?l \<lparr> selected := True, e_x := 10, e_y := 60 \<rparr>]"
    by (simp add: SelectTool_onMove_def Tool_onMove_def Let_def screenToCanvas_def tr
          the_point_def update_object_def sel new_SelectTool_def new_Tool_def
          tool.extend_def selectTool.fields_def)
  have no: "new_object ?l init_canvas = (0, init_canvas \<lparr> store := [?l] \<rparr>)"
    by (simp add: new_object_def init_canvas_def)
  have dr: "draggedElement ?t1 = Some 0" by simp
  show ?thesis
    unfolding no Let_def prod.case s1 s2 fst_conv snd_conv sel
    by (simp add: l line_updateBounds_def)
qed

section \<open>Freehand tool: decimation and simplification\<close>

lemma sqDist_nonneg: "0 \<le> sqDist p q"
  by (simp add: sqDist_def Let_def)

lemma sqDistToSegment_nonneg: "0 \<le> sqDistToSegment p v w"
  by (simp add: sqDistToSegment_def Let_def sqDist_nonneg)

text \<open>
  The loop of \<open>simplify\<close> keeps this invariant: either nothing was found
  (\<open>maxDist = 0\<close>, \<open>maxIndex = 0\<close>) or \<open>maxDist > 0\<close> and \<open>maxIndex\<close> lies strictly
  between \<open>start\<close> and \<open>end\<close>.
\<close>

lemma scanMax_invariant:
  assumes "s < i" and "i + k \<le> e"
      and "(m = 0 \<and> j = 0) \<or> (0 < m \<and> s < j \<and> j < e)"
  shows "(fst (scanMax k pts s e i (m, j)) = 0 \<and> snd (scanMax k pts s e i (m, j)) = 0)
         \<or> (0 < fst (scanMax k pts s e i (m, j))
             \<and> s < snd (scanMax k pts s e i (m, j)) \<and> snd (scanMax k pts s e i (m, j)) < e)"
  using assms
proof (induction k arbitrary: i m j)
  case 0
  then show ?case by simp
next
  case (Suc k)
  let ?d = "sqDistToSegment (pts ! i) (pts ! s) (pts ! e)"
  have m0: "0 \<le> m" using Suc.prems(3) by auto
  show ?case
  proof (cases "?d > m")
    case True
    have "(?d = 0 \<and> i = 0) \<or> (0 < ?d \<and> s < i \<and> i < e)"
      using True m0 Suc.prems(1,2) by auto
    from Suc.IH [of "Suc i" ?d i, OF _ _ this] Suc.prems(1,2) True
    show ?thesis by (simp add: Let_def)
  next
    case False
    from Suc.IH [of "Suc i" m j, OF _ _ Suc.prems(3)] Suc.prems(1,2) False
    show ?thesis by (simp add: Let_def)
  qed
qed

lemma simplify_returns:
  assumes "0 \<le> eps"
  shows "1 \<le> fuel \<Longrightarrow> e - s \<le> fuel \<Longrightarrow> \<exists>ps. simplify fuel pts eps s e = Some ps"
proof (induction fuel arbitrary: s e)
  case 0
  then show ?case by simp
next
  case (Suc fuel)
  obtain m j where sc: "scanMax (e - (s + 1)) pts s e (s + 1) (0, 0) = (m, j)"
    by (cases "scanMax (e - (s + 1)) pts s e (s + 1) (0, 0)") auto
  show ?case
  proof (cases "sqrt m > eps")
    case False
    then show ?thesis using sc by simp
  next
    case True
    then have mpos: "0 < m" using assms by (smt (verit) real_sqrt_le_0_iff)
    have se: "s + 1 \<le> e"
    proof (rule ccontr)
      assume "\<not> s + 1 \<le> e"
      then have "e - (s + 1) = 0" by simp
      then have "m = 0" using sc by simp
      then show False using mpos by simp
    qed
    have inv: "(m = 0 \<and> j = 0) \<or> (0 < m \<and> s < j \<and> j < e)"
      using scanMax_invariant [of s "s + 1" "e - (s + 1)" e 0 0 pts] se sc by simp
    then have j: "s < j" "j < e" using mpos by auto
    then have f1: "1 \<le> fuel" "j - s \<le> fuel" "e - j \<le> fuel"
      using Suc.prems by simp_all
    from Suc.IH [OF f1(1) f1(2)] obtain l where l: "simplify fuel pts eps s j = Some l" by blast
    from Suc.IH [OF f1(1) f1(3)] obtain r where r: "simplify fuel pts eps j e = Some r" by blast
    show ?thesis using sc True l r by simp
  qed
qed

lemma simplifyPoints_returns:
  assumes "0 \<le> eps"
  shows "\<exists>ps. simplifyPoints pts eps = Some ps"
proof (cases "length pts < 3")
  case True
  then show ?thesis by (simp add: simplifyPoints_def)
next
  case False
  then have "1 \<le> length pts" "(length pts - 1) - 0 \<le> length pts" by simp_all
  from simplify_returns [OF assms this] False show ?thesis
    by (simp add: simplifyPoints_def)
qed

lemma path_simplify_returns: "\<exists>e'. path_simplify e = Some e'"
proof -
  from simplifyPoints_returns [of 2 "points (shape e)"] obtain ps
    where "simplifyPoints (points (shape e)) 2 = Some ps" by auto
  then show ?thesis by (simp add: path_simplify_def)
qed

lemma path_updateBounds_shape [simp]: "shape (path_updateBounds e) = shape e"
  by (simp add: path_updateBounds_def Let_def)

lemma addPoint_points [simp]:
  "points (shape (addPoint x y e)) = points (shape e) @ [\<lparr> p_x = x, p_y = y \<rparr>]"
  by (simp add: addPoint_def)




lemma new_FreehandPath_points [simp]:
  "points (shape (new_FreehandPath gid opts)) = or_points (o_points opts) []"
  by (simp add: new_FreehandPath_def Let_def)







section \<open>Tap detection\<close>

lemma detectTap_result:
  "fst (detectTap now p cur r) = tap_condition now p cur r"
  by (simp add: detectTap_def tap_condition_def short_still_episode_def Let_def
        TAP_DURATION_def TAP_COOLDOWN_def)

lemma detectTap_state:
  "wasPointing (snd (detectTap now p cur r)) = p"
  "lastTapTime (snd (detectTap now p cur r))
   = (if tap_condition now p cur r then now else lastTapTime r)"
  "pointingStartTime (snd (detectTap now p cur r))
   = (if p \<and> \<not> wasPointing r then Some now
      else if tap_condition now p cur r then None else pointingStartTime r)"
  "pointingStartPosition (snd (detectTap now p cur r))
   = (if p \<and> \<not> wasPointing r then Some cur else pointingStartPosition r)"
  by (auto simp: detectTap_def tap_condition_def short_still_episode_def Let_def
        TAP_DURATION_def TAP_COOLDOWN_def)

text \<open>The tap condition reads only the four tap fields of the state.\<close>

lemma tap_condition_cong:
  assumes "wasPointing r1 = wasPointing r" and "lastTapTime r1 = lastTapTime r"
      and "pointingStartTime r1 = pointingStartTime r"
      and "pointingStartPosition r1 = pointingStartPosition r"
  shows "tap_condition now p cur r1 = tap_condition now p cur r"
  using assms by (simp add: tap_condition_def short_still_episode_def)

lemma smoothing_keeps_tap_fields:
  "wasPointing (snd (smoothPosition raw w h r)) = wasPointing r"
  "lastTapTime (snd (smoothPosition raw w h r)) = lastTapTime r"
  "pointingStartTime (snd (smoothPosition raw w h r)) = pointingStartTime r"
  "pointingStartPosition (snd (smoothPosition raw w h r)) = pointingStartPosition r"
  "wasPointing (snd (smoothPalmPosition raw w h r)) = wasPointing r"
  "lastTapTime (snd (smoothPalmPosition raw w h r)) = lastTapTime r"
  "pointingStartTime (snd (smoothPalmPosition raw w h r)) = pointingStartTime r"
  "pointingStartPosition (snd (smoothPalmPosition raw w h r)) = pointingStartPosition r"
  by (simp_all add: smoothPosition_def smoothPalmPosition_def Let_def)

lemma emitGestureEvents_tap_fields:
  "wasPointing (emitGestureEvents g r) = wasPointing r"
  "lastTapTime (emitGestureEvents g r) = lastTapTime r"
  "pointingStartTime (emitGestureEvents g r) = pointingStartTime r"
  "pointingStartPosition (emitGestureEvents g r) = pointingStartPosition r"
  by (simp_all add: emitGestureEvents_def r_emit_def Let_def)

text \<open>
  What process does with the tap state, for a first hand that analyzeHand accepts.
\<close>

lemma process_tap:
  assumes "analyzeHand ls = Inr g0"
  shows "\<exists>g r'. process now stamp (Some (ls # others)) w h r = Inr (Some g, r')
           \<and> isPointing g = isPointing g0 \<and> cursorPosition g = cursorPosition g0
           \<and> isTap g = tap_condition now (isPointing g0) (cursorPosition g0) r
           \<and> wasPointing r' = isPointing g0
           \<and> lastTapTime r'
               = (if tap_condition now (isPointing g0) (cursorPosition g0) r
                  then now else lastTapTime r)
           \<and> pointingStartTime r'
               = (if isPointing g0 \<and> \<not> wasPointing r then Some now
                  else if tap_condition now (isPointing g0) (cursorPosition g0) r then None
                  else pointingStartTime r)
           \<and> pointingStartPosition r'
               = (if isPointing g0 \<and> \<not> wasPointing r then Some (cursorPosition g0)
                  else pointingStartPosition r)"
proof -
  let ?sm = "if isOpenPalm g0
             then smoothPalmPosition (cursorPosition g0) w h r
             else smoothPosition (cursorPosition g0) w h r"
  let ?r1 = "snd ?sm"
  let ?dt = "detectTap now (isPointing g0) (cursorPosition g0) ?r1"
  have f: "wasPointing ?r1 = wasPointing r" "lastTapTime ?r1 = lastTapTime r"
          "pointingStartTime ?r1 = pointingStartTime r"
          "pointingStartPosition ?r1 = pointingStartPosition r"
    by (simp_all add: smoothing_keeps_tap_fields)
  have tc: "tap_condition now (isPointing g0) (cursorPosition g0) ?r1
            = tap_condition now (isPointing g0) (cursorPosition g0) r"
    using f by (rule tap_condition_cong)
  let ?g = "g0 \<lparr> smoothedPosition := Some (fst ?sm), isTap := fst ?dt \<rparr>"
  let ?r3 = "(snd ?dt) \<lparr> gestureHistory :=
                push_bounded (gestureHistory (snd ?dt)) (g_type ?g, stamp) 20 \<rparr>"
  let ?r' = "(emitGestureEvents ?g ?r3) \<lparr> previousGestureType := Some (g_type ?g) \<rparr>"
  have p: "process now stamp (Some (ls # others)) w h r = Inr (Some ?g, ?r')"
    using assms by (simp add: process_def Let_def split: prod.splits)
  have "isTap ?g = tap_condition now (isPointing g0) (cursorPosition g0) r"
    by (simp add: detectTap_result tc)
  moreover have "wasPointing ?r' = isPointing g0"
    by (simp add: emitGestureEvents_tap_fields detectTap_state)
  moreover have "lastTapTime ?r'
               = (if tap_condition now (isPointing g0) (cursorPosition g0) r
                  then now else lastTapTime r)"
    by (simp add: emitGestureEvents_tap_fields detectTap_state tc f)
  moreover have "pointingStartTime ?r'
               = (if isPointing g0 \<and> \<not> wasPointing r then Some now
                  else if tap_condition now (isPointing g0) (cursorPosition g0) r then None
                  else pointingStartTime r)"
    by (simp add: emitGestureEvents_tap_fields detectTap_state tc f)
  moreover have "pointingStartPosition ?r'
               = (if isPointing g0 \<and> \<not> wasPointing r then Some (cursorPosition g0)
                  else pointingStartPosition r)"
    by (simp add: emitGestureEvents_tap_fields detectTap_state f)
  moreover have "isPointing ?g = isPointing g0" "cursorPosition ?g = cursorPosition g0"
    by simp_all
  ultimately show ?thesis using p by blast
qed

lemma distance_vertical:
  "distance \<lparr> p_x = a, p_y = b \<rparr> \<lparr> p_x = a, p_y = b' \<rparr> = \<bar>b' - b\<bar>"
  by (simp add: distance_def)

text \<open>The fixture: the index finger is extended exactly when its tip is above 0.52.\<close>

lemma analyzeHand_fixture:
  assumes "0 \<le> tip" and "tip \<le> 0.6"
  shows "\<exists>g. analyzeHand (fixture_hand tip) = Inr g
              \<and> isPointing g = (tip < 0.52) \<and> isFist g = (\<not> tip < 0.52)
              \<and> \<not> isOpenPalm g
              \<and> cursorPosition g = \<lparr> p_x = 0.5, p_y = tip \<rparr>"
proof -
  have th: "isThumbExtended (fixture_hand tip) = Inr False"
    by (simp add: isThumbExtended_def at_index_def fixture_hand_def lpoint_def distance_vertical)
  have ix: "isExtended (fixture_hand tip) 8 6 5 = Inr (tip < 0.52)"
    using assms
    by (simp add: isExtended_def at_index_def fixture_hand_def lpoint_def distance_vertical
          Let_def)
  have mi: "isExtended (fixture_hand tip) 12 10 9 = Inr False"
    by (simp add: isExtended_def at_index_def fixture_hand_def lpoint_def distance_vertical
          Let_def)
  have ri: "isExtended (fixture_hand tip) 16 14 13 = Inr False"
    by (simp add: isExtended_def at_index_def fixture_hand_def lpoint_def distance_vertical
          Let_def)
  have pk: "isExtended (fixture_hand tip) 20 18 17 = Inr False"
    by (simp add: isExtended_def at_index_def fixture_hand_def lpoint_def distance_vertical
          Let_def)
  have fs: "getFingerStates (fixture_hand tip)
            = Inr \<lparr> thumb = False, index = (tip < 0.52), middle = False, ring = False,
                    pinky = False \<rparr>"
    by (simp add: getFingerStates_def th ix mi ri pk)
  have a8: "at_index (fixture_hand tip) 8 = Some \<lparr> l_x = 0.5, l_y = tip, l_z = 0 \<rparr>"
    by (simp add: at_index_def fixture_hand_def)
  show ?thesis by (simp add: analyzeHand_def fs a8 Let_def)
qed

lemma fixture_frame:
  assumes "0 \<le> tip" and "tip \<le> 0.6"
      and "(wasPointing r, lastTapTime r, pointingStartTime r, pointingStartPosition r)
           = (wp, lt, st, sp)"
  obtains g r' where
      "process now now (Some [fixture_hand tip]) 1 1 r = Inr (Some g, r')"
      "isTap g = (\<not> tip < 0.52 \<and> wp \<and> truthy_time st \<and> now - the st < 300
                  \<and> (case sp of None \<Rightarrow> 0 | Some s \<Rightarrow> distance s \<lparr> p_x = 0.5, p_y = tip \<rparr>) < 0.1
                  \<and> now - lt > 400)"
      "(wasPointing r', lastTapTime r', pointingStartTime r', pointingStartPosition r')
       = (tip < 0.52,
          if isTap g then now else lt,
          if tip < 0.52 \<and> \<not> wp then Some now else if isTap g then None else st,
          if tip < 0.52 \<and> \<not> wp then Some \<lparr> p_x = 0.5, p_y = tip \<rparr> else sp)"
proof -
  from analyzeHand_fixture [OF assms(1,2)] obtain g0
    where a: "analyzeHand (fixture_hand tip) = Inr g0"
      and g0: "isPointing g0 = (tip < 0.52)" "cursorPosition g0 = \<lparr> p_x = 0.5, p_y = tip \<rparr>"
    by blast
  from process_tap [OF a, of now now "[]" 1 1 r] obtain g r'
    where p: "process now now (Some [fixture_hand tip]) 1 1 r = Inr (Some g, r')"
      and t: "isTap g = tap_condition now (isPointing g0) (cursorPosition g0) r"
      and f: "wasPointing r' = isPointing g0"
             "lastTapTime r' = (if tap_condition now (isPointing g0) (cursorPosition g0) r
                                then now else lastTapTime r)"
             "pointingStartTime r'
               = (if isPointing g0 \<and> \<not> wasPointing r then Some now
                  else if tap_condition now (isPointing g0) (cursorPosition g0) r then None
                  else pointingStartTime r)"
             "pointingStartPosition r'
               = (if isPointing g0 \<and> \<not> wasPointing r then Some (cursorPosition g0)
                  else pointingStartPosition r)"
    by blast
  have r: "wasPointing r = wp" "lastTapTime r = lt" "pointingStartTime r = st"
          "pointingStartPosition r = sp"
    using assms(3) by simp_all
  have t': "isTap g = (\<not> tip < 0.52 \<and> wp \<and> truthy_time st \<and> now - the st < 300
                  \<and> (case sp of None \<Rightarrow> 0 | Some s \<Rightarrow> distance s \<lparr> p_x = 0.5, p_y = tip \<rparr>) < 0.1
                  \<and> now - lt > 400)"
    unfolding t
    by (simp add: tap_condition_def short_still_episode_def g0 r cong: option.case_cong)
  have f': "(wasPointing r', lastTapTime r', pointingStartTime r', pointingStartPosition r')
       = (tip < 0.52,
          if isTap g then now else lt,
          if tip < 0.52 \<and> \<not> wp then Some now else if isTap g then None else st,
          if tip < 0.52 \<and> \<not> wp then Some \<lparr> p_x = 0.5, p_y = tip \<rparr> else sp)"
    unfolding f t by (simp add: g0 r)
  from that [OF p t' f'] show thesis .
qed

lemma run_frames_step:
  assumes "process now now (Some [ls]) 1 1 r = Inr (Some g, r')"
      and "run_frames fs r' = Inr (taps, r'')"
  shows "run_frames ((now, ls) # fs) r = Inr (isTap g # taps, r'')"
  using assms by simp

lemma new_recognizer_tap_fields:
  "(wasPointing new_GestureRecognizer, lastTapTime new_GestureRecognizer,
    pointingStartTime new_GestureRecognizer, pointingStartPosition new_GestureRecognizer)
   = (False, 0, None, None)"
  by (simp add: new_GestureRecognizer_def)

text \<open>
  Three runs from a new recognizer. Pointing for 250 ms, released 0.05 away: one tap.
\<close>

lemma tap_scenario_250:
  "\<exists>r'. run_frames [(1000000, fixture_hand 0.5), (1000125, fixture_hand 0.5),
                     (1000250, fixture_hand 0.55)] new_GestureRecognizer
         = Inr ([False, False, True], r')"
proof -
  obtain g1 r1 where p1: "process 1000000 1000000 (Some [fixture_hand 0.5]) 1 1
                            new_GestureRecognizer = Inr (Some g1, r1)"
    and t1: "\<not> isTap g1"
    and f1: "(wasPointing r1, lastTapTime r1, pointingStartTime r1, pointingStartPosition r1)
             = (True, 0, Some 1000000, Some \<lparr> p_x = 0.5, p_y = 0.5 \<rparr>)"
    by (rule fixture_frame [OF _ _ new_recognizer_tap_fields, of "0.5" 1000000]) simp_all
  obtain g2 r2 where p2: "process 1000125 1000125 (Some [fixture_hand 0.5]) 1 1 r1
                          = Inr (Some g2, r2)"
    and t2: "\<not> isTap g2"
    and f2: "(wasPointing r2, lastTapTime r2, pointingStartTime r2, pointingStartPosition r2)
             = (True, 0, Some 1000000, Some \<lparr> p_x = 0.5, p_y = 0.5 \<rparr>)"
    by (rule fixture_frame [OF _ _ f1, of "0.5" 1000125]) simp_all
  obtain g3 r3 where p3: "process 1000250 1000250 (Some [fixture_hand 0.55]) 1 1 r2
                          = Inr (Some g3, r3)"
    and t3: "isTap g3"
    by (rule fixture_frame [OF _ _ f2, of "0.55" 1000250])
       (simp_all add: truthy_time_def distance_vertical)
  have e: "run_frames [] r3 = Inr ([], r3)" by simp
  note run_frames_step [OF p1 run_frames_step [OF p2 run_frames_step [OF p3 e]]]
  then show ?thesis using t1 t2 t3 by simp
qed

text \<open>Pointing for 400 ms: no tap.\<close>

lemma tap_scenario_400:
  "\<exists>r'. run_frames [(1000000, fixture_hand 0.5), (1000200, fixture_hand 0.5),
                     (1000400, fixture_hand 0.55)] new_GestureRecognizer
         = Inr ([False, False, False], r')"
proof -
  obtain g1 r1 where p1: "process 1000000 1000000 (Some [fixture_hand 0.5]) 1 1
                            new_GestureRecognizer = Inr (Some g1, r1)"
    and t1: "\<not> isTap g1"
    and f1: "(wasPointing r1, lastTapTime r1, pointingStartTime r1, pointingStartPosition r1)
             = (True, 0, Some 1000000, Some \<lparr> p_x = 0.5, p_y = 0.5 \<rparr>)"
    by (rule fixture_frame [OF _ _ new_recognizer_tap_fields, of "0.5" 1000000]) simp_all
  obtain g2 r2 where p2: "process 1000200 1000200 (Some [fixture_hand 0.5]) 1 1 r1
                          = Inr (Some g2, r2)"
    and t2: "\<not> isTap g2"
    and f2: "(wasPointing r2, lastTapTime r2, pointingStartTime r2, pointingStartPosition r2)
             = (True, 0, Some 1000000, Some \<lparr> p_x = 0.5, p_y = 0.5 \<rparr>)"
    by (rule fixture_frame [OF _ _ f1, of "0.5" 1000200]) simp_all
  obtain g3 r3 where p3: "process 1000400 1000400 (Some [fixture_hand 0.55]) 1 1 r2
                          = Inr (Some g3, r3)"
    and t3: "\<not> isTap g3"
    by (rule fixture_frame [OF _ _ f2, of "0.55" 1000400]) simp_all
  have e: "run_frames [] r3 = Inr ([], r3)" by simp
  note run_frames_step [OF p1 run_frames_step [OF p2 run_frames_step [OF p3 e]]]
  then show ?thesis using t1 t2 t3 by simp
qed

text \<open>
  A tap is accepted at 1000100. A second episode begins at 1000150 and ends at
  1000300, 200 ms after the accepted tap: rejected. A second episode that begins at
  1000300 and ends at 1000550, 450 ms after the accepted tap: accepted, although it
  began only 200 ms after that tap.
\<close>

lemma tap_then_pointing:
  obtains r3 where
    "run_frames [(1000000, fixture_hand 0.5), (1000100, fixture_hand 0.55),
                 (start2, fixture_hand 0.5)] new_GestureRecognizer
     = Inr ([False, True, False], r3)"
    "(wasPointing r3, lastTapTime r3, pointingStartTime r3, pointingStartPosition r3)
     = (True, 1000100, Some start2, Some \<lparr> p_x = 0.5, p_y = 0.5 \<rparr>)"
proof -
  obtain g1 r1 where p1: "process 1000000 1000000 (Some [fixture_hand 0.5]) 1 1
                            new_GestureRecognizer = Inr (Some g1, r1)"
    and t1: "\<not> isTap g1"
    and f1: "(wasPointing r1, lastTapTime r1, pointingStartTime r1, pointingStartPosition r1)
             = (True, 0, Some 1000000, Some \<lparr> p_x = 0.5, p_y = 0.5 \<rparr>)"
    by (rule fixture_frame [OF _ _ new_recognizer_tap_fields, of "0.5" 1000000]) simp_all
  obtain g2 r2 where p2: "process 1000100 1000100 (Some [fixture_hand 0.55]) 1 1 r1
                          = Inr (Some g2, r2)"
    and t2: "isTap g2"
    and f2: "(wasPointing r2, lastTapTime r2, pointingStartTime r2, pointingStartPosition r2)
             = (False, 1000100, None, Some \<lparr> p_x = 0.5, p_y = 0.5 \<rparr>)"
    by (rule fixture_frame [OF _ _ f1, of "0.55" 1000100])
       (simp_all add: truthy_time_def distance_vertical)
  obtain g3 r3 where p3: "process start2 start2 (Some [fixture_hand 0.5]) 1 1 r2
                          = Inr (Some g3, r3)"
    and t3: "\<not> isTap g3"
    and f3: "(wasPointing r3, lastTapTime r3, pointingStartTime r3, pointingStartPosition r3)
             = (True, 1000100, Some start2, Some \<lparr> p_x = 0.5, p_y = 0.5 \<rparr>)"
    by (rule fixture_frame [OF _ _ f2, of "0.5" start2]) simp_all
  have e: "run_frames [] r3 = Inr ([], r3)" by simp
  note run_frames_step [OF p1 run_frames_step [OF p2 run_frames_step [OF p3 e]]]
  then have "run_frames [(1000000, fixture_hand 0.5), (1000100, fixture_hand 0.55),
                 (start2, fixture_hand 0.5)] new_GestureRecognizer
     = Inr ([False, True, False], r3)"
    using t1 t2 t3 by simp
  from that [OF this f3] show thesis .
qed

lemma run_frames_append:
  assumes "run_frames fs r = Inr (taps, r1)"
      and "process now now (Some [ls]) 1 1 r1 = Inr (Some g, r2)"
  shows "run_frames (fs @ [(now, ls)]) r = Inr (taps @ [isTap g], r2)"
  using assms
proof (induction fs arbitrary: r taps)
  case Nil
  then show ?case by simp
next
  case (Cons f fs)
  obtain t l where f: "f = (t, l)" by (cases f)
  show ?case
  proof (cases "process t t (Some [l]) 1 1 r")
    case (Inl e)
    then show ?thesis using Cons.prems f by simp
  next
    case (Inr res)
    obtain go r' where res: "res = (go, r')" by (cases res)
    show ?thesis
    proof (cases go)
      case None
      then show ?thesis using Cons Inr res f by simp
    next
      case (Some g')
      from Cons.prems(1) Inr res Some f obtain taps' where
        tl: "run_frames fs r' = Inr (taps', r1)" and taps: "taps = isTap g' # taps'"
        by (auto split: sum.splits)
      from Cons.IH [OF tl Cons.prems(2)] Inr res Some f taps show ?thesis by simp
    qed
  qed
qed

lemma tap_scenario_two_taps:
  "\<exists>r'. run_frames [(1000000, fixture_hand 0.5), (1000100, fixture_hand 0.55),
                     (1000150, fixture_hand 0.5), (1000300, fixture_hand 0.55)]
           new_GestureRecognizer
         = Inr ([False, True, False, False], r')"
proof -
  obtain r3 where
    r: "run_frames [(1000000, fixture_hand 0.5), (1000100, fixture_hand 0.55),
                 (1000150, fixture_hand 0.5)] new_GestureRecognizer
        = Inr ([False, True, False], r3)"
    and f3: "(wasPointing r3, lastTapTime r3, pointingStartTime r3, pointingStartPosition r3)
             = (True, 1000100, Some 1000150, Some \<lparr> p_x = 0.5, p_y = 0.5 \<rparr>)"
    by (rule tap_then_pointing [of 1000150])
  obtain g4 r4 where p4: "process 1000300 1000300 (Some [fixture_hand 0.55]) 1 1 r3
                          = Inr (Some g4, r4)"
    and t4: "\<not> isTap g4"
    by (rule fixture_frame [OF _ _ f3, of "0.55" 1000300]) simp_all
  from run_frames_append [OF r p4] t4 show ?thesis by simp
qed

text \<open>
  C6 as amended. For every frame in which process returns a gesture, isTap is true
  exactly when the frame is a falling edge of the pointing flag (pointing in the
  frame before, not now) whose episode lasted strictly less than 300 ms, whose cursor
  is strictly less than 0.1 away from the episode's start position, and which comes
  strictly more than 400 ms after the last accepted tap; in every other frame isTap
  is false. The state records what the condition reads: the pointing flag of the
  frame, the time of the accepted tap, and at a rising edge the start time and start
  position of the episode, which stay while pointing continues. In particular an
  episode held 250 ms and released 0.05 away gives exactly one tap, one held 400 ms
  gives none, and of two such episodes whose ends are 200 ms apart only the first
  gives a tap.
\<close>

theorem tap_on_falling_edge:
  "(process now stamp (Some (ls # others)) w h r = Inr (Some g, r') \<longrightarrow>
      isTap g = tap_condition now (isPointing g) (cursorPosition g) r
      \<and> wasPointing r' = isPointing g
      \<and> lastTapTime r' = (if isTap g then now else lastTapTime r)
      \<and> (isPointing g \<and> \<not> wasPointing r \<longrightarrow>
            pointingStartTime r' = Some now
            \<and> pointingStartPosition r' = Some (cursorPosition g))
      \<and> (isPointing g \<and> wasPointing r \<longrightarrow>
            pointingStartTime r' = pointingStartTime r
            \<and> pointingStartPosition r' = pointingStartPosition r))
   \<and> (\<exists>r'. run_frames [(1000000, fixture_hand 0.5), (1000125, fixture_hand 0.5),
                        (1000250, fixture_hand 0.55)] new_GestureRecognizer
            = Inr ([False, False, True], r'))
   \<and> (\<exists>r'. run_frames [(1000000, fixture_hand 0.5), (1000200, fixture_hand 0.5),
                        (1000400, fixture_hand 0.55)] new_GestureRecognizer
            = Inr ([False, False, False], r'))
   \<and> (\<exists>r'. run_frames [(1000000, fixture_hand 0.5), (1000100, fixture_hand 0.55),
                        (1000150, fixture_hand 0.5), (1000300, fixture_hand 0.55)]
              new_GestureRecognizer
            = Inr ([False, True, False, False], r'))"
proof -
  have general: "isTap g = tap_condition now (isPointing g) (cursorPosition g) r
      \<and> wasPointing r' = isPointing g
      \<and> lastTapTime r' = (if isTap g then now else lastTapTime r)
      \<and> (isPointing g \<and> \<not> wasPointing r \<longrightarrow>
            pointingStartTime r' = Some now
            \<and> pointingStartPosition r' = Some (cursorPosition g))
      \<and> (isPointing g \<and> wasPointing r \<longrightarrow>
            pointingStartTime r' = pointingStartTime r
            \<and> pointingStartPosition r' = pointingStartPosition r)"
    if p: "process now stamp (Some (ls # others)) w h r = Inr (Some g, r')"
  proof -
    from p obtain g0 where a: "analyzeHand ls = Inr g0"
      by (cases "analyzeHand ls") (simp_all add: process_def)
    from process_tap [OF a, of now stamp others w h r] p
    have f: "isPointing g = isPointing g0" "cursorPosition g = cursorPosition g0"
            "isTap g = tap_condition now (isPointing g0) (cursorPosition g0) r"
            "wasPointing r' = isPointing g0"
            "lastTapTime r'
               = (if tap_condition now (isPointing g0) (cursorPosition g0) r
                  then now else lastTapTime r)"
            "pointingStartTime r'
               = (if isPointing g0 \<and> \<not> wasPointing r then Some now
                  else if tap_condition now (isPointing g0) (cursorPosition g0) r then None
                  else pointingStartTime r)"
            "pointingStartPosition r'
               = (if isPointing g0 \<and> \<not> wasPointing r then Some (cursorPosition g0)
                  else pointingStartPosition r)"
      by auto
    have nt: "isPointing g0 \<Longrightarrow> \<not> tap_condition now (isPointing g0) (cursorPosition g0) r"
      by (simp add: tap_condition_def short_still_episode_def)
    show ?thesis using f nt by auto
  qed
  from general tap_scenario_250 tap_scenario_400 tap_scenario_two_taps
  show ?thesis by blast
qed

theorem tap_on_falling_edge_witness:
  "(let r = new_GestureRecognizer \<lparr> wasPointing := True, pointingStartTime := Some 1000000,
               pointingStartPosition := Some \<lparr> p_x = 0.5, p_y = 0.5 \<rparr> \<rparr>
    in \<exists>g r'. process 1000250 1000250 (Some [fixture_hand 0.55]) 1 1 r = Inr (Some g, r')
         \<and> \<not> isPointing g \<and> cursorPosition g = \<lparr> p_x = 0.5, p_y = 0.55 \<rparr>
         \<and> tap_condition 1000250 (isPointing g) (cursorPosition g) r
         \<and> isTap g \<and> \<not> wasPointing r' \<and> lastTapTime r' = 1000250)
   \<and> (\<exists>g r'. process 1000000 1000000 (Some [fixture_hand 0.5]) 1 1 new_GestureRecognizer
                = Inr (Some g, r')
         \<and> isPointing g \<and> \<not> wasPointing new_GestureRecognizer \<and> \<not> isTap g
         \<and> pointingStartTime r' = Some 1000000
         \<and> pointingStartPosition r' = Some (cursorPosition g)
         \<and> (\<exists>g2 r2. process 1000125 1000125 (Some [fixture_hand 0.5]) 1 1 r' = Inr (Some g2, r2)
               \<and> isPointing g2 \<and> wasPointing r' \<and> \<not> isTap g2
               \<and> pointingStartTime r2 = Some 1000000))"
proof -
  let ?r = "new_GestureRecognizer \<lparr> wasPointing := True, pointingStartTime := Some 1000000,
               pointingStartPosition := Some \<lparr> p_x = 0.5, p_y = 0.5 \<rparr> \<rparr>"
  have h55: "\<exists>g0. analyzeHand (fixture_hand 0.55) = Inr g0 \<and> \<not> isPointing g0
                 \<and> cursorPosition g0 = \<lparr> p_x = 0.5, p_y = 0.55 \<rparr>"
    using analyzeHand_fixture [of "0.55"] by auto
  have h50: "\<exists>g0. analyzeHand (fixture_hand 0.5) = Inr g0 \<and> isPointing g0
                 \<and> cursorPosition g0 = \<lparr> p_x = 0.5, p_y = 0.5 \<rparr>"
    using analyzeHand_fixture [of "0.5"] by auto
  from h55 obtain g0 where a: "analyzeHand (fixture_hand 0.55) = Inr g0"
    and g0: "\<not> isPointing g0" "cursorPosition g0 = \<lparr> p_x = 0.5, p_y = 0.55 \<rparr>" by blast
  from process_tap [OF a, of 1000250 1000250 "[]" 1 1 ?r] obtain g r'
    where p: "process 1000250 1000250 (Some [fixture_hand 0.55]) 1 1 ?r = Inr (Some g, r')"
      and pg: "isPointing g = isPointing g0" "cursorPosition g = cursorPosition g0"
    by blast
  have tc: "tap_condition 1000250 False \<lparr> p_x = 0.5, p_y = 0.55 \<rparr> ?r"
    by (simp add: tap_condition_def short_still_episode_def new_GestureRecognizer_def
          truthy_time_def distance_vertical)
  from tap_on_falling_edge [of 1000250 1000250 "fixture_hand 0.55" "[]" 1 1 ?r g r'] p
  have t: "isTap g = tap_condition 1000250 (isPointing g) (cursorPosition g) ?r"
          "wasPointing r' = isPointing g"
          "lastTapTime r' = (if isTap g then 1000250 else lastTapTime ?r)"
    by blast+
  have part1: "\<exists>g r'. process 1000250 1000250 (Some [fixture_hand 0.55]) 1 1 ?r = Inr (Some g, r')
         \<and> \<not> isPointing g \<and> cursorPosition g = \<lparr> p_x = 0.5, p_y = 0.55 \<rparr>
         \<and> tap_condition 1000250 (isPointing g) (cursorPosition g) ?r
         \<and> isTap g \<and> \<not> wasPointing r' \<and> lastTapTime r' = 1000250"
    using p pg g0 tc t by auto
  from h50 obtain k0 where b: "analyzeHand (fixture_hand 0.5) = Inr k0"
    and k0: "isPointing k0" "cursorPosition k0 = \<lparr> p_x = 0.5, p_y = 0.5 \<rparr>" by blast
  from process_tap [OF b, of 1000000 1000000 "[]" 1 1 new_GestureRecognizer] obtain k s'
    where q: "process 1000000 1000000 (Some [fixture_hand 0.5]) 1 1 new_GestureRecognizer
              = Inr (Some k, s')"
      and qk: "isPointing k = isPointing k0"
    by blast
  have nw: "\<not> wasPointing new_GestureRecognizer" by (simp add: new_GestureRecognizer_def)
  from tap_on_falling_edge
         [of 1000000 1000000 "fixture_hand 0.5" "[]" 1 1 new_GestureRecognizer k s'] q
  have u: "isTap k = tap_condition 1000000 (isPointing k) (cursorPosition k) new_GestureRecognizer"
          "wasPointing s' = isPointing k"
          "isPointing k \<and> \<not> wasPointing new_GestureRecognizer \<longrightarrow>
             pointingStartTime s' = Some 1000000
             \<and> pointingStartPosition s' = Some (cursorPosition k)"
    by blast+
  have ntk: "\<not> isTap k"
    using u(1) qk k0 by (simp add: tap_condition_def short_still_episode_def)
  from process_tap [OF b, of 1000125 1000125 "[]" 1 1 s'] obtain k2 s2
    where q2: "process 1000125 1000125 (Some [fixture_hand 0.5]) 1 1 s' = Inr (Some k2, s2)"
      and qk2: "isPointing k2 = isPointing k0"
    by blast
  from tap_on_falling_edge [of 1000125 1000125 "fixture_hand 0.5" "[]" 1 1 s' k2 s2] q2
  have v: "isTap k2 = tap_condition 1000125 (isPointing k2) (cursorPosition k2) s'"
          "isPointing k2 \<and> wasPointing s' \<longrightarrow> pointingStartTime s2 = pointingStartTime s'"
    by blast+
  have ntk2: "\<not> isTap k2"
    using v(1) qk2 k0 by (simp add: tap_condition_def short_still_episode_def)
  have part2: "\<exists>g r'. process 1000000 1000000 (Some [fixture_hand 0.5]) 1 1 new_GestureRecognizer
                = Inr (Some g, r')
         \<and> isPointing g \<and> \<not> wasPointing new_GestureRecognizer \<and> \<not> isTap g
         \<and> pointingStartTime r' = Some 1000000
         \<and> pointingStartPosition r' = Some (cursorPosition g)
         \<and> (\<exists>g2 r2. process 1000125 1000125 (Some [fixture_hand 0.5]) 1 1 r' = Inr (Some g2, r2)
               \<and> isPointing g2 \<and> wasPointing r' \<and> \<not> isTap g2
               \<and> pointingStartTime r2 = Some 1000000)"
    using q qk k0 nw ntk u q2 qk2 ntk2 v by auto
  from part1 part2 show ?thesis unfolding Let_def by blast
qed

text \<open>
  C6 as stated fails. A tap is accepted at 1000100; the next pointing episode begins
  at 1000300, 200 ms after that tap, and ends at 1000550, 450 ms after it. The code
  accepts it as a tap, since it compares the time of the falling edge with the last
  accepted tap; the condition of the claim (the episode began more than 400 ms after
  the last accepted tap) does not hold.
\<close>

theorem tap_accepted_though_episode_began_in_cooldown:
  "\<exists>r3 g r4.
      run_frames [(1000000, fixture_hand 0.5), (1000100, fixture_hand 0.55),
                  (1000300, fixture_hand 0.5)] new_GestureRecognizer
        = Inr ([False, True, False], r3)
      \<and> lastTapTime r3 = 1000100 \<and> pointingStartTime r3 = Some 1000300
      \<and> process 1000550 1000550 (Some [fixture_hand 0.55]) 1 1 r3 = Inr (Some g, r4)
      \<and> isTap g
      \<and> \<not> claimed_tap_condition 1000550 (isPointing g) (cursorPosition g) r3"
proof -
  obtain r3 where
    r: "run_frames [(1000000, fixture_hand 0.5), (1000100, fixture_hand 0.55),
                 (1000300, fixture_hand 0.5)] new_GestureRecognizer
        = Inr ([False, True, False], r3)"
    and f3: "(wasPointing r3, lastTapTime r3, pointingStartTime r3, pointingStartPosition r3)
             = (True, 1000100, Some 1000300, Some \<lparr> p_x = 0.5, p_y = 0.5 \<rparr>)"
    by (rule tap_then_pointing [of 1000300])
  obtain g4 r4 where p4: "process 1000550 1000550 (Some [fixture_hand 0.55]) 1 1 r3
                          = Inr (Some g4, r4)"
    and t4: "isTap g4"
    by (rule fixture_frame [OF _ _ f3, of "0.55" 1000550])
       (simp_all add: truthy_time_def distance_vertical)
  have nc: "\<not> claimed_tap_condition 1000550 p cur r3" for p cur
    using f3 by (simp add: claimed_tap_condition_def)
  from r f3 p4 t4 nc show ?thesis by auto
qed

end
